theory Spec2Isabelle
  imports Main
begin

section \<open>Error codes\<close>

text \<open>
  The JavaScript sources throw \<open>BrandManagerError\<close>, \<open>FigmaApiError\<close>,
  \<open>FigmaSyncError\<close> and \<open>TokenManagerError\<close> objects that carry a \<open>code\<close> field; callers
  dispatch on that field only.  An error is modelled by its code.  A code that the
  source builds by wrapping a caught error (\<open>details.originalError\<close>) keeps the code of
  the wrapped error as its argument.  \<open>ReferenceError\<close> is the error the JavaScript
  runtime itself raises when an identifier is read that is not bound in the scope of
  the expression; \<open>FS_ERROR\<close> stands for the errors of the \<open>fs\<close> module
  (\<open>ENOTDIR\<close>, \<open>EISDIR\<close>, ...), which have a \<open>code\<close> that no caller tests for;
  \<open>TOOL_ERROR\<close> stands for what the build tools (style-dictionary, sharp, webfont)
  throw.  The errors of the remote adapter are a type of their own: \<open>HTTP n\<close> is the
  code \<open>HTTP_n\<close> of the response interceptor, \<open>DOWNLOADED_INVALID_SVG\<close> the code
  \<open>INVALID_SVG_CONTENT\<close> as \<open>downloadSvg\<close> throws it, and \<open>AXIOS_ERROR\<close> an error
  of \<open>axios\<close> that no interceptor has rewritten: it has the response (if any) and
  the code \<open>axios\<close> gave it (\<open>ERR_BAD_REQUEST\<close>, \<open>ECONNABORTED\<close>, ...), never
  \<open>HTTP_n\<close>.  None of them has the code \<open>ICON_EXISTS\<close> or \<open>BRAND_EXISTS\<close>.
\<close>

text \<open>
  How a request of \<open>axios\<close> fails: with a response of some status, without a response,
  or before the request was sent.
\<close>

datatype axios_failure = Response nat | NoResponse | SetupFailure

datatype remote_error =
    HTTP nat
  | NETWORK_ERROR
  | CONFIG_ERROR
  | INVALID_FILE_KEY
  | INVALID_NODE_IDS
  | MISSING_DOWNLOAD_PARAMS
  | DOWNLOADED_INVALID_SVG
  | GET_ICONS_BY_BRAND_ERROR
  | AXIOS_ERROR axios_failure

datatype error_code =
    INVALID_BRAND_NAME
  | INVALID_ICON_NAME
  | BRAND_EXISTS
  | BRAND_NOT_FOUND
  | ICON_EXISTS
  | ICON_NOT_FOUND
  | INVALID_SVG_CONTENT
  | FS_ERROR
  | ReferenceError
  | READ_ICONS_ERROR error_code
  | ADD_ICON_ERROR error_code
  | REMOVE_ICON_ERROR error_code
  | FigmaApi remote_error
  | SYNC_FAILED error_code
  | INVALID_TOKEN_PARAMS
  | TOOL_ERROR

section \<open>Name normalisation (brand-manager: sanitizeBrandName, sanitizeIconName)\<close>

text \<open>
  A JavaScript string is modelled as a \<^typ>\<open>string\<close>, one \<^typ>\<open>char\<close> per code unit, so
  the model covers the code units below 256.  On these, \<open>String.prototype.toLowerCase\<close>
  changes the letters \<open>A\<close>..\<open>Z\<close> and some non-ASCII letters; the latter are not in
  \<open>[a-z0-9]\<close> before or after, and the next step replaces them by a hyphen either
  way, so only the ASCII part of the mapping is written out.
\<close>

definition lowerAlnum :: "string" where
  "lowerAlnum = ''abcdefghijklmnopqrstuvwxyz0123456789''"

definition isLowerAlnum :: "char \<Rightarrow> bool" where
  "isLowerAlnum c = (c \<in> set lowerAlnum)"

definition toLowerChar :: "char \<Rightarrow> char" where
  "toLowerChar c =
     (case map_of (zip ''ABCDEFGHIJKLMNOPQRSTUVWXYZ'' ''abcdefghijklmnopqrstuvwxyz'') c of
        Some l \<Rightarrow> l
      | None \<Rightarrow> c)"

definition toLowerCase :: "string \<Rightarrow> string" where
  "toLowerCase s = map toLowerChar s"

text \<open>\<^verbatim>\<open>.replace(/[^a-z0-9]/g, '-')\<close>: every code unit outside \<open>[a-z0-9]\<close> becomes a hyphen.\<close>

definition replaceNonAlnum :: "string \<Rightarrow> string" where
  "replaceNonAlnum s = map (\<lambda>c. if isLowerAlnum c then c else CHR ''-'') s"

text \<open>\<^verbatim>\<open>.replace(/-+/g, '-')\<close>: every maximal run of hyphens becomes one hyphen.\<close>

fun collapseHyphens :: "string \<Rightarrow> string" where
  "collapseHyphens (a # b # cs) =
     (if a = CHR ''-'' \<and> b = CHR ''-'' then collapseHyphens (b # cs)
      else a # collapseHyphens (b # cs))"
| "collapseHyphens cs = cs"

text \<open>
  \<^verbatim>\<open>.replace(/^-|-$/g, '')\<close>: the global replace removes a hyphen at index 0 and,
  scanning on from there, a hyphen that is the last code unit.
\<close>

definition stripLeading :: "string \<Rightarrow> string" where
  "stripLeading s = (case s of [] \<Rightarrow> [] | c # cs \<Rightarrow> if c = CHR ''-'' then cs else s)"

definition stripTrailing :: "string \<Rightarrow> string" where
  "stripTrailing s = (if s \<noteq> [] \<and> last s = CHR ''-'' then butlast s else s)"

definition stripEnds :: "string \<Rightarrow> string" where
  "stripEnds s = stripTrailing (stripLeading s)"

text \<open>The chain of calls that is the body of both sanitizers.\<close>

definition sanitize :: "string \<Rightarrow> string" where
  "sanitize name = stripEnds (collapseHyphens (replaceNonAlnum (toLowerCase name)))"

text \<open>\<^verbatim>\<open>if (!name || typeof name !== 'string') throw ...\<close>: the empty string is falsy.\<close>

definition sanitizeBrandName :: "string \<Rightarrow> error_code + string" where
  "sanitizeBrandName name = (if name = [] then Inl INVALID_BRAND_NAME else Inr (sanitize name))"

definition sanitizeIconName :: "string \<Rightarrow> error_code + string" where
  "sanitizeIconName name = (if name = [] then Inl INVALID_ICON_NAME else Inr (sanitize name))"

text \<open>Normalising the result of a normalisation: the second call sees what the first returned.\<close>

definition sanitizeIconNameTwice :: "string \<Rightarrow> error_code + string" where
  "sanitizeIconNameTwice name =
     (case sanitizeIconName name of Inl e \<Rightarrow> Inl e | Inr r \<Rightarrow> sanitizeIconName r)"

definition sanitizeBrandNameTwice :: "string \<Rightarrow> error_code + string" where
  "sanitizeBrandNameTwice name =
     (case sanitizeBrandName name of Inl e \<Rightarrow> Inl e | Inr r \<Rightarrow> sanitizeBrandName r)"

subsection \<open>The normal form in the words of the specification\<close>

text \<open>
  The specification describes the result: lowercase, every run of non-alphanumeric
  characters collapsed to a single hyphen, no leading or trailing hyphen.  That is: the
  maximal alphanumeric runs of the lowercased input, joined by single hyphens.
\<close>

fun alnumRuns :: "string \<Rightarrow> string list" where
  "alnumRuns [] = []"
| "alnumRuns (c # cs) =
     (if \<not> isLowerAlnum c then alnumRuns cs
      else if cs \<noteq> [] \<and> isLowerAlnum (hd cs)
        then (case alnumRuns cs of [] \<Rightarrow> [[c]] | w # ws \<Rightarrow> (c # w) # ws)
        else [c] # alnumRuns cs)"

fun joinHyphen :: "string list \<Rightarrow> string" where
  "joinHyphen [] = []"
| "joinHyphen (w # ws) = w @ (if ws = [] then [] else CHR ''-'' # joinHyphen ws)"

definition normalize_spec :: "string \<Rightarrow> string" where
  "normalize_spec x = joinHyphen (alnumRuns (toLowerCase x))"

fun noDoubleHyphen :: "string \<Rightarrow> bool" where
  "noDoubleHyphen (a # b # cs) = (\<not> (a = CHR ''-'' \<and> b = CHR ''-'') \<and> noDoubleHyphen (b # cs))"
| "noDoubleHyphen cs = True"

text \<open>Leading and trailing hyphen, as tests on the first and last character.\<close>

definition noEdgeHyphen :: "string \<Rightarrow> bool" where
  "noEdgeHyphen s = (s = [] \<or> (hd s \<noteq> CHR ''-'' \<and> last s \<noteq> CHR ''-''))"

section \<open>Objects and directories as association lists\<close>

text \<open>
  A JavaScript object with string keys is an association list with distinct keys, in
  the order of enumeration; \<open>obj[k] = v\<close> overwrites in place or appends.  (Keys that
  are array indices enumerate first in JavaScript; nothing below depends on the order.
  Lookups are lookups of own properties.)
\<close>

fun objSet :: "(string \<times> 'v) list \<Rightarrow> string \<Rightarrow> 'v \<Rightarrow> (string \<times> 'v) list" where
  "objSet [] k v = [(k, v)]"
| "objSet ((k', v') # rest) k v =
     (if k' = k then (k, v) # rest else (k', v') # objSet rest k v)"

section \<open>The asset store (brand-manager: class BrandManager)\<close>

text \<open>
  The store is the directory \<open>assetsDir\<close>.  Each of its entries is a directory (a brand)
  or something else; each entry of a brand directory is a regular file with its content
  or a sub-directory.  A directory is the list of its entries in the order
  \<open>fs.readdirSync\<close> returns them, with distinct names; a new entry is put last.  The
  calls of \<open>fs\<close> fail only where the kind of an entry makes them fail (reading a
  regular file as a directory, unlinking a directory); permissions, timestamps
  (\<open>stat.mtime\<close>) and a vanishing \<open>assetsDir\<close> are not modelled.
\<close>

datatype entry = File string | Folder

type_synonym directory = "(string \<times> entry) list"

datatype top_entry = BrandDir directory | PlainFile

type_synonym store = "(string \<times> top_entry) list"

definition supportedFormats :: "string list" where
  "supportedFormats = [''.svg'', ''.png'', ''.jpg'', ''.jpeg'']"

text \<open>The names \<open>format\<close> takes in \<open>addIconToBrand\<close> for a supported format.\<close>

definition formatNames :: "string list" where
  "formatNames = [''svg'', ''png'', ''jpg'', ''jpeg'']"

record icon =
  name :: string
  filename :: string
  path :: string
  format :: string
  fsize :: nat

record brand_info =
  bname :: string
  bpath :: string
  iconCount :: nat

record icon_result =
  rbrand :: string
  rname :: string
  rpath :: string
  rformat :: string

text \<open>\<open>fs.existsSync\<close> on \<open>path.join(assetsDir, dir)\<close> and on \<open>path.join(brandDir, file)\<close>.\<close>

definition brandExists :: "store \<Rightarrow> string \<Rightarrow> bool" where
  "brandExists st dir = (map_of st dir \<noteq> None)"

definition lookupFile :: "store \<Rightarrow> string \<Rightarrow> string \<Rightarrow> entry option" where
  "lookupFile st dir file =
     (case map_of st dir of
        Some (BrandDir d) \<Rightarrow> map_of d file
      | _ \<Rightarrow> None)"

definition fileExists :: "store \<Rightarrow> string \<Rightarrow> string \<Rightarrow> bool" where
  "fileExists st dir file = (lookupFile st dir file \<noteq> None)"

text \<open>
  \<open>path.join(a, b)\<close> for a relative \<open>b\<close> that is a plain entry name.  Paths are kept
  relative to \<open>assetsDir\<close>.
\<close>

definition joinPath :: "string \<Rightarrow> string \<Rightarrow> string" where
  "joinPath a b = a @ ''/'' @ b"

text \<open>
  \<open>getBrandDirectory\<close> sanitizes its argument again and joins it to \<open>assetsDir\<close>; the
  model returns the name of the entry of \<open>assetsDir\<close>.
\<close>

definition getBrandDirectory :: "string \<Rightarrow> error_code + string" where
  "getBrandDirectory brandName = sanitizeBrandName brandName"

text \<open>
  \<open>path.extname\<close> on an entry name (no \<open>/\<close>): from the last dot on, and empty when
  there is no dot, when the last dot is the first character, or for \<open>..\<close>.
\<close>

definition extname :: "string \<Rightarrow> string" where
  "extname f =
     (let after = length (takeWhile (\<lambda>c. c \<noteq> CHR ''.'') (rev f)) in
      if CHR ''.'' \<notin> set f \<or> f = ''..'' \<or> length f - after - 1 = 0 then []
      else drop (length f - after - 1) f)"

text \<open>
  \<open>path.basename(p, ext)\<close> on an entry name: \<open>ext\<close> is cut off when \<open>p\<close> ends with it
  (compared case-sensitively); the result is empty when \<open>p\<close> is \<open>ext\<close>.
\<close>

definition basename :: "string \<Rightarrow> string \<Rightarrow> string" where
  "basename p ext =
     (if ext \<noteq> [] \<and> length ext \<le> length p then
        (if ext = p then []
         else if drop (length p - length ext) p = ext then take (length p - length ext) p
         else p)
      else p)"

text \<open>
  \<open>a.name.localeCompare(b.name) \<le> 0\<close>, modelled by the lexicographic order on code units.
  The default collation agrees with it on sanitized names (hyphen before digits before
  lowercase letters); no statement below depends on the order of other names.
\<close>

fun nameLe :: "string \<Rightarrow> string \<Rightarrow> bool" where
  "nameLe [] t = True"
| "nameLe (a # s) [] = False"
| "nameLe (a # s) (b # t) = (if a = b then nameLe s t else (of_char a :: nat) < of_char b)"

text \<open>\<open>Array.prototype.sort\<close> is stable: an insertion sort that keeps equal names in order.\<close>

fun insertByName :: "icon \<Rightarrow> icon list \<Rightarrow> icon list" where
  "insertByName x [] = [x]"
| "insertByName x (y # ys) =
     (if nameLe (name x) (name y) then x # y # ys else y # insertByName x ys)"

definition sortByName :: "icon list \<Rightarrow> icon list" where
  "sortByName xs = foldr insertByName xs []"

text \<open>The body of the loop of \<open>getIconsForBrand\<close>: the icon of one directory entry, if any.\<close>

definition iconOfEntry :: "string \<Rightarrow> string \<times> entry \<Rightarrow> icon option" where
  "iconOfEntry brandDir item =
     (case snd item of
        Folder \<Rightarrow> None
      | File content \<Rightarrow>
          (let ext = toLowerCase (extname (fst item)) in
           if ext \<in> set supportedFormats
           then Some \<lparr> name = basename (fst item) ext, filename = fst item,
                       path = joinPath brandDir (fst item), format = drop 1 ext,
                       fsize = length content \<rparr>
           else None))"

definition getIconsForBrand :: "store \<Rightarrow> string \<Rightarrow> error_code + icon list" where
  "getIconsForBrand st brandName =
     (case sanitizeBrandName brandName of Inl e \<Rightarrow> Inl e | Inr sanitizedBrand \<Rightarrow>
      case getBrandDirectory sanitizedBrand of Inl e \<Rightarrow> Inl e | Inr brandDir \<Rightarrow>
      case map_of st brandDir of
        None \<Rightarrow> Inl BRAND_NOT_FOUND
      | Some PlainFile \<Rightarrow> Inl (READ_ICONS_ERROR FS_ERROR)
      | Some (BrandDir d) \<Rightarrow> Inr (sortByName (List.map_filter (iconOfEntry brandDir) d)))"

definition getIconCount :: "store \<Rightarrow> string \<Rightarrow> nat" where
  "getIconCount st brandName =
     (case getIconsForBrand st brandName of Inl e \<Rightarrow> 0 | Inr icons \<Rightarrow> length icons)"

definition isDirectory :: "top_entry \<Rightarrow> bool" where
  "isDirectory t = (case t of BrandDir d \<Rightarrow> True | PlainFile \<Rightarrow> False)"

text \<open>
  \<open>getAllBrands\<close> reports the entry names as they are on disk, and counts the icons
  through \<open>getIconCount\<close>, which sanitizes the name and swallows every error.
\<close>

definition getAllBrands :: "store \<Rightarrow> brand_info list" where
  "getAllBrands st =
     map (\<lambda>item. \<lparr> bname = fst item, bpath = fst item, iconCount = getIconCount st (fst item) \<rparr>)
       (filter (\<lambda>item. isDirectory (snd item)) st)"

definition createBrand :: "store \<Rightarrow> string \<Rightarrow> (error_code + string) \<times> store" where
  "createBrand st brandName =
     (case sanitizeBrandName brandName of Inl e \<Rightarrow> (Inl e, st) | Inr sanitizedBrand \<Rightarrow>
      case getBrandDirectory sanitizedBrand of Inl e \<Rightarrow> (Inl e, st) | Inr brandDir \<Rightarrow>
      if brandExists st brandDir then (Inl BRAND_EXISTS, st)
      else (Inr sanitizedBrand, st @ [(brandDir, BrandDir [])]))"

text \<open>
  The store after the first step of \<open>addIconToBrand\<close>, which creates the brand
  directory when it does not exist.
\<close>

definition ensured :: "store \<Rightarrow> string \<Rightarrow> store" where
  "ensured st dir = (if brandExists st dir then st else st @ [(dir, BrandDir [])])"

text \<open>\<open>content.includes('<svg')\<close>.\<close>

fun startsWith :: "string \<Rightarrow> string \<Rightarrow> bool" where
  "startsWith s [] = True"
| "startsWith [] (p # ps) = False"
| "startsWith (c # cs) (p # ps) = (c = p \<and> startsWith cs ps)"

fun includesStr :: "string \<Rightarrow> string \<Rightarrow> bool" where
  "includesStr [] sub = startsWith [] sub"
| "includesStr (c # cs) sub = (startsWith (c # cs) sub \<or> includesStr cs sub)"

text \<open>\<open>fs.writeFileSync\<close> of a file that does not exist yet, into a brand directory.\<close>

definition writeNewFile :: "store \<Rightarrow> string \<Rightarrow> string \<Rightarrow> string \<Rightarrow> store option" where
  "writeNewFile st dir file content =
     (case map_of st dir of
        Some (BrandDir d) \<Rightarrow> Some (objSet st dir (BrandDir (d @ [(file, File content)])))
      | _ \<Rightarrow> None)"

text \<open>
  \<open>addIconToBrand\<close>.  The existence check throws \<open>ICON_EXISTS\<close> before the \<open>try\<close> block;
  the content check throws inside it, so that the \<open>catch\<close> of the same function wraps
  \<open>INVALID_SVG_CONTENT\<close> into \<open>ADD_ICON_ERROR\<close>.  \<open>format\<close> is one of \<open>formatNames\<close>
  in every statement below, so that \<open>filename\<close> is a plain entry name.
\<close>

definition addIconToBrand ::
  "store \<Rightarrow> string \<Rightarrow> string \<Rightarrow> string \<Rightarrow> string \<Rightarrow> (error_code + icon_result) \<times> store" where
  "addIconToBrand st brandName iconName content fmt =
     (case sanitizeBrandName brandName of Inl e \<Rightarrow> (Inl e, st) | Inr sanitizedBrand \<Rightarrow>
      case sanitizeIconName iconName of Inl e \<Rightarrow> (Inl e, st) | Inr sanitizedIcon \<Rightarrow>
      case getBrandDirectory sanitizedBrand of Inl e \<Rightarrow> (Inl e, st) | Inr brandDir \<Rightarrow>
      case (if \<not> brandExists st brandDir then createBrand st sanitizedBrand
            else (Inr sanitizedBrand, st)) of
        (Inl e, st1) \<Rightarrow> (Inl e, st1)
      | (Inr created, st1) \<Rightarrow>
          (let filename = sanitizedIcon @ ''.'' @ fmt in
           if fileExists st1 brandDir filename then (Inl ICON_EXISTS, st1)
           else if fmt = ''svg'' \<and> \<not> includesStr content ''<svg''
             then (Inl (ADD_ICON_ERROR INVALID_SVG_CONTENT), st1)
           else (case writeNewFile st1 brandDir filename content of
                   None \<Rightarrow> (Inl (ADD_ICON_ERROR FS_ERROR), st1)
                 | Some st2 \<Rightarrow>
                     (Inr \<lparr> rbrand = sanitizedBrand, rname = sanitizedIcon,
                            rpath = joinPath brandDir filename, rformat = fmt \<rparr>, st2))))"

text \<open>The loop over \<open>supportedFormats\<close> of \<open>removeIconFromBrand\<close>: the first extension whose file exists.\<close>

fun findIconFile :: "store \<Rightarrow> string \<Rightarrow> string \<Rightarrow> string list \<Rightarrow> string option" where
  "findIconFile st brandDir sanitizedIcon [] = None"
| "findIconFile st brandDir sanitizedIcon (ext # exts) =
     (if fileExists st brandDir (sanitizedIcon @ ext) then Some ext
      else findIconFile st brandDir sanitizedIcon exts)"

text \<open>\<open>fs.unlinkSync\<close>: removes a regular file, fails on a directory.\<close>

definition unlinkFile :: "store \<Rightarrow> string \<Rightarrow> string \<Rightarrow> store option" where
  "unlinkFile st dir file =
     (case map_of st dir of
        Some (BrandDir d) \<Rightarrow>
          (case map_of d file of
             Some (File content) \<Rightarrow>
               Some (objSet st dir (BrandDir (filter (\<lambda>item. fst item \<noteq> file) d)))
           | _ \<Rightarrow> None)
      | _ \<Rightarrow> None)"

definition removeIconFromBrand ::
  "store \<Rightarrow> string \<Rightarrow> string \<Rightarrow> (error_code + icon_result) \<times> store" where
  "removeIconFromBrand st brandName iconName =
     (case sanitizeBrandName brandName of Inl e \<Rightarrow> (Inl e, st) | Inr sanitizedBrand \<Rightarrow>
      case sanitizeIconName iconName of Inl e \<Rightarrow> (Inl e, st) | Inr sanitizedIcon \<Rightarrow>
      case getBrandDirectory sanitizedBrand of Inl e \<Rightarrow> (Inl e, st) | Inr brandDir \<Rightarrow>
      if \<not> brandExists st brandDir then (Inl BRAND_NOT_FOUND, st)
      else (case findIconFile st brandDir sanitizedIcon supportedFormats of
              None \<Rightarrow> (Inl ICON_NOT_FOUND, st)
            | Some ext \<Rightarrow>
                (case unlinkFile st brandDir (sanitizedIcon @ ext) of
                   None \<Rightarrow> (Inl (REMOVE_ICON_ERROR FS_ERROR), st)
                 | Some st1 \<Rightarrow>
                     (Inr \<lparr> rbrand = sanitizedBrand, rname = sanitizedIcon,
                            rpath = joinPath brandDir (sanitizedIcon @ ext),
                            rformat = drop 1 ext \<rparr>, st1))))"

text \<open>Every regular file and sub-directory of the store, with its brand directory.\<close>

definition storeFiles :: "store \<Rightarrow> (string \<times> string \<times> entry) list" where
  "storeFiles st =
     concat (map (\<lambda>item. case snd item of
                            BrandDir d \<Rightarrow> map (\<lambda>e. (fst item, fst e, snd e)) d
                          | PlainFile \<Rightarrow> []) st)"

section \<open>The remote source adapter (figma-api: class FigmaApiService)\<close>

text \<open>
  \<open>retryRequest\<close>.  The request function is given by the outcome of each of its calls:
  \<open>requestFn i\<close> is what the call made in iteration \<open>i\<close> returns or throws.  The result
  is what \<open>retryRequest\<close> returns or throws (\<open>Inr None\<close> is \<open>undefined\<close>, when the loop
  runs out without a call), the number of calls made, and the delays slept, in order.
\<close>

definition isAuthError :: "remote_error \<Rightarrow> bool" where
  "isAuthError e = (e = HTTP 401 \<or> e = HTTP 403)"

function retryLoop ::
  "(nat \<Rightarrow> remote_error + 'a) \<Rightarrow> nat \<Rightarrow> nat \<Rightarrow> nat \<Rightarrow> nat list
     \<Rightarrow> (remote_error + 'a option) \<times> nat \<times> nat list" where
  "retryLoop requestFn retryDelay attempts i slept =
     (if i < attempts then
        (case requestFn i of
           Inr v \<Rightarrow> (Inr (Some v), Suc i, slept)
         | Inl e \<Rightarrow>
             if i = attempts - 1 then (Inl e, Suc i, slept)
             else if isAuthError e then (Inl e, Suc i, slept)
             else retryLoop requestFn retryDelay attempts (Suc i) (slept @ [retryDelay * 2 ^ i]))
      else (Inr None, i, slept))"
  by pat_completeness auto
termination
  by (relation "measure (\<lambda>(requestFn, retryDelay, attempts, i, slept). attempts - i)") auto

declare retryLoop.simps [simp del]

definition retryRequest ::
  "(nat \<Rightarrow> remote_error + 'a) \<Rightarrow> nat \<Rightarrow> nat
     \<Rightarrow> (remote_error + 'a option) \<times> nat \<times> nat list" where
  "retryRequest requestFn retryDelay attempts = retryLoop requestFn retryDelay attempts 0 []"

text \<open>
  The response interceptor installed on \<open>this.client\<close>: the only place where the code
  \<open>HTTP_<status>\<close> is made.
\<close>

definition responseInterceptor :: "axios_failure \<Rightarrow> remote_error" where
  "responseInterceptor f =
     (case f of
        Response status \<Rightarrow> HTTP status
      | NoResponse \<Rightarrow> NETWORK_ERROR
      | SetupFailure \<Rightarrow> CONFIG_ERROR)"

text \<open>
  The request functions handed to \<open>retryRequest\<close>, given what the server does at each
  call.  \<open>getFile\<close>, \<open>getFileNodes\<close>, \<open>getFileComponents\<close> and \<open>exportNodes\<close> call
  \<open>this.client.get\<close>, so a failure passes the interceptor.  \<open>downloadSvg\<close> calls
  \<open>axios.get\<close> itself, so a failure arrives as \<open>axios\<close> made it; a response without
  \<open><svg\<close> is turned into an error.
\<close>

definition clientRequest :: "(nat \<Rightarrow> axios_failure + 'a) \<Rightarrow> nat \<Rightarrow> remote_error + 'a" where
  "clientRequest server i =
     (case server i of Inl f \<Rightarrow> Inl (responseInterceptor f) | Inr data \<Rightarrow> Inr data)"

definition downloadSvgRequest ::
  "(nat \<Rightarrow> axios_failure + string) \<Rightarrow> nat \<Rightarrow> remote_error + string" where
  "downloadSvgRequest server i =
     (case server i of
        Inl f \<Rightarrow> Inl (AXIOS_ERROR f)
      | Inr data \<Rightarrow> if \<not> includesStr data ''<svg'' then Inl DOWNLOADED_INVALID_SVG else Inr data)"

text \<open>A server that answers every request with the status 403.\<close>

definition forbidden :: "nat \<Rightarrow> axios_failure + string" where
  "forbidden i = Inl (Response 403)"

text \<open>
  What a sync run sees of the remote file: the listing of \<open>getIconsByBrand\<close> (the
  entries of the object it returns, in the order of \<open>Object.entries\<close>), the \<open>images\<close>
  map of \<open>exportNodes\<close> for a list of node ids, and the outcome of the retried download
  of a URL.  The service is a function of its arguments during one run.
\<close>

record remote_icon =
  nodeId :: string
  iname :: string
  idescription :: string
  ioriginalName :: string

record remote =
  getIconsByBrand :: "remote_error + (string \<times> remote_icon list) list"
  exportNodes :: "string list \<Rightarrow> remote_error + (string \<Rightarrow> string option)"
  fetchSvg :: "string \<Rightarrow> remote_error + string"

text \<open>\<open>downloadSvg\<close>: the guard \<^verbatim>\<open>if (!url || !filename)\<close>, then the retried request.\<close>

definition downloadSvg :: "remote \<Rightarrow> string \<Rightarrow> string \<Rightarrow> remote_error + string" where
  "downloadSvg rem url fname =
     (if url = [] \<or> fname = [] then Inl MISSING_DOWNLOAD_PARAMS else fetchSvg rem url)"

section \<open>The token registry\<close>

record token =
  tvalue :: string
  ttype :: string
  tdescription :: string
  tbrand :: string
  tname :: string
  toriginalName :: string

type_synonym registry = "(string \<times> token) list"

text \<open>token-manager: \<open>createTokenKey\<close>.\<close>

definition createTokenKey :: "string \<Rightarrow> string \<Rightarrow> error_code + string" where
  "createTokenKey brand iconName =
     (if brand = [] \<or> iconName = [] then Inl INVALID_TOKEN_PARAMS
      else Inr (brand @ ''-'' @ iconName))"

datatype validation_error =
    MissingValue string
  | MissingType string
  | MissingBrand string
  | MissingName string
  | KeyMismatch string string

text \<open>
  token-manager: \<open>validateTokenStructure\<close>, on a tokens object that has its \<open>icon\<close>
  property.  \<open>createTokenKey\<close> throws out of the \<open>forEach\<close> when a brand or name is empty.
\<close>

fun validateEntries ::
  "registry \<Rightarrow> validation_error list \<Rightarrow> error_code + validation_error list" where
  "validateEntries [] errors = Inr errors"
| "validateEntries ((key, tok) # rest) errors =
     (let e1 = errors @ (if tvalue tok = [] then [MissingValue key] else []);
          e2 = e1 @ (if ttype tok = [] then [MissingType key] else []);
          e3 = e2 @ (if tbrand tok = [] then [MissingBrand key] else []);
          e4 = e3 @ (if tname tok = [] then [MissingName key] else [])
      in case createTokenKey (tbrand tok) (tname tok) of
           Inl e \<Rightarrow> Inl e
         | Inr expectedKey \<Rightarrow>
             validateEntries rest
               (if key \<noteq> expectedKey then e4 @ [KeyMismatch key expectedKey] else e4))"

definition validateTokenStructure :: "registry \<Rightarrow> error_code + validation_error list" where
  "validateTokenStructure icon = validateEntries icon []"

text \<open>
  sync-figma-icons: the two loops of \<open>updateTokensFile\<close> that fill \<open>tokens.icon\<close>.  The
  file \<open>icons.json\<close> is \<open>JSON.stringify\<close> of this object and reading it back is
  \<open>JSON.parse\<close>; a file is modelled by the object it holds.
\<close>

definition tokenOf :: "string \<Rightarrow> remote_icon \<Rightarrow> token" where
  "tokenOf brandName ic =
     \<lparr> tvalue = brandName @ ''/'' @ iname ic @ ''.svg'',
       ttype = ''asset'',
       tdescription = (if idescription ic \<noteq> [] then idescription ic
                       else ioriginalName ic @ '' icon''),
       tbrand = brandName,
       tname = iname ic,
       toriginalName = ioriginalName ic \<rparr>"

fun addBrandTokens :: "string \<Rightarrow> remote_icon list \<Rightarrow> registry \<Rightarrow> registry" where
  "addBrandTokens brandName [] reg = reg"
| "addBrandTokens brandName (ic # icons) reg =
     addBrandTokens brandName icons
       (objSet reg (brandName @ ''-'' @ iname ic) (tokenOf brandName ic))"

fun buildTokens :: "(string \<times> remote_icon list) list \<Rightarrow> registry \<Rightarrow> registry" where
  "buildTokens [] reg = reg"
| "buildTokens ((brandName, icons) # rest) reg =
     buildTokens rest (addBrandTokens brandName icons reg)"


text \<open>
  The invariant of the specification: the key of every entry is the canonical key
  \<open>{brand}-{name}\<close> of the entry's own \<open>brand\<close> and \<open>name\<close>.
\<close>

definition keysCanonical :: "registry \<Rightarrow> bool" where
  "keysCanonical reg = (\<forall>(key, tok) \<in> set reg. key = tbrand tok @ ''-'' @ tname tok)"

text \<open>Where the tokens of the registry come from.\<close>

definition fromListing :: "(string \<times> remote_icon list) list \<Rightarrow> token \<Rightarrow> bool" where
  "fromListing figmaIcons tok =
     (\<exists>entry \<in> set figmaIcons. \<exists>ic \<in> set (snd entry). tok = tokenOf (fst entry) ic)"

section \<open>The synchronizer (sync-figma-icons: class FigmaIconSync)\<close>

datatype action = WouldUpdate | WouldAdd | Updated | Added | WouldRemove | Removed

text \<open>
  The entries pushed to \<open>results.errors\<close> and to \<open>syncStats.errors\<close>, with the code of
  the error in place of its message.  An entry of \<open>added\<close>, \<open>updated\<close> or \<open>removed\<close>
  is kept as the icon name and the \<open>action\<close>.
\<close>

datatype brand_error =
    NoExportUrl string
  | IconFailed string error_code
  | ExportFailed string error_code
  | BrandFailed string error_code
  | RemoveFailed string error_code

datatype stat_error =
    ICON_PROCESS_ERROR string string error_code
  | EXPORT_ERROR string error_code
  | BRAND_PROCESS_ERROR string error_code
  | SYNC_ERROR error_code

record brand_results =
  r_added :: "(string \<times> action) list"
  r_updated :: "(string \<times> action) list"
  r_removed :: "(string \<times> action) list"
  r_errors :: "brand_error list"
  r_skipped :: "string list"

record sync_stats =
  totalBrands :: nat
  totalIcons :: nat
  nAdded :: nat
  nUpdated :: nat
  nRemoved :: nat
  statErrors :: "stat_error list"

text \<open>
  What a run can change: the asset store, the file \<open>tokens/icons.json\<close> (\<open>None\<close> while
  it does not exist) and the statistics of the \<open>FigmaIconSync\<close> object.
\<close>

record sync_state =
  assets :: store
  tokensFile :: "registry option"
  syncStats :: sync_stats

definition emptyResults :: brand_results where
  "emptyResults = \<lparr> r_added = [], r_updated = [], r_removed = [], r_errors = [], r_skipped = [] \<rparr>"

definition emptyStats :: sync_stats where
  "emptyStats = \<lparr> totalBrands = 0, totalIcons = 0, nAdded = 0, nUpdated = 0, nRemoved = 0,
                   statErrors = [] \<rparr>"

definition addStatError :: "stat_error \<Rightarrow> sync_state \<Rightarrow> sync_state" where
  "addStatError e s = s\<lparr> syncStats := (syncStats s)\<lparr> statErrors := statErrors (syncStats s) @ [e] \<rparr> \<rparr>"

text \<open>\<open>buildCurrentState\<close>: per brand, the icons of the listing keyed by name.\<close>

fun iconsByName :: "icon list \<Rightarrow> (string \<times> icon) list \<Rightarrow> (string \<times> icon) list" where
  "iconsByName [] acc = acc"
| "iconsByName (ic # icons) acc = iconsByName icons (objSet acc (name ic) ic)"

fun buildCurrentState ::
  "store \<Rightarrow> brand_info list \<Rightarrow> (string \<times> (string \<times> icon) list) list
     \<Rightarrow> (string \<times> (string \<times> icon) list) list" where
  "buildCurrentState st [] state = state"
| "buildCurrentState st (b # bs) state =
     buildCurrentState st bs
       (objSet state (bname b)
          (case getIconsForBrand st (bname b) of
             Inl e \<Rightarrow> []
           | Inr icons \<Rightarrow> iconsByName icons []))"

text \<open>
  The \<open>catch\<close> block of \<open>processIcon\<close>.  For \<open>ICON_EXISTS\<close> it removes the existing
  icon and then calls \<open>addIconToBrand(brandName, icon.name, svgContent, 'svg')\<close>.
  \<open>svgContent\<close> is declared by \<open>const\<close> inside the \<open>try\<close> block, so it is not in scope
  in the \<open>catch\<close> block: evaluating the arguments throws a \<open>ReferenceError\<close> before
  \<open>addIconToBrand\<close> is entered, and the inner \<open>catch\<close> rethrows it.  Every other
  error is rethrown.  The result is the error thrown and the state.
\<close>

definition processIconCatch ::
  "sync_state \<Rightarrow> string \<Rightarrow> remote_icon \<Rightarrow> error_code \<Rightarrow> error_code \<times> sync_state" where
  "processIconCatch s brandName ic e =
     (if e = ICON_EXISTS then
        (case removeIconFromBrand (assets s) brandName (iname ic) of
           (Inl updateError, a) \<Rightarrow> (updateError, s\<lparr> assets := a \<rparr>)
         | (Inr removed, a) \<Rightarrow> (ReferenceError, s\<lparr> assets := a \<rparr>))
      else (e, s))"

text \<open>
  \<open>processIcon\<close>.  The first component is the error thrown, if any.  \<open>exportUrl\<close> is
  \<open>exportResult.images[icon.id]\<close>; a missing entry and the empty string are falsy.
\<close>

definition processIcon ::
  "bool \<Rightarrow> remote \<Rightarrow> sync_state \<Rightarrow> string \<Rightarrow> remote_icon \<Rightarrow> string option
     \<Rightarrow> (string \<times> icon) list \<Rightarrow> brand_results
     \<Rightarrow> error_code option \<times> sync_state \<times> brand_results" where
  "processIcon dryRun rem s brandName ic exportUrl currentIcons results =
     (case (case exportUrl of None \<Rightarrow> None | Some u \<Rightarrow> if u = [] then None else Some u) of
        None \<Rightarrow> (None, s, results\<lparr> r_errors := r_errors results @ [NoExportUrl (iname ic)] \<rparr>)
      | Some url \<Rightarrow>
         (case downloadSvg rem url (iname ic) of
            Inl e \<Rightarrow>
              (case processIconCatch s brandName ic (FigmaApi e) of
                 (thrown, s1) \<Rightarrow> (Some thrown, s1, results))
          | Inr svgContent \<Rightarrow>
              (let isUpdate = (map_of currentIcons (iname ic) \<noteq> None) in
               if dryRun then
                 (if isUpdate
                  then (None, s, results\<lparr> r_updated := r_updated results @ [(iname ic, WouldUpdate)] \<rparr>)
                  else (None, s, results\<lparr> r_added := r_added results @ [(iname ic, WouldAdd)] \<rparr>))
               else
                 (case addIconToBrand (assets s) brandName (iname ic) svgContent ''svg'' of
                    (Inl e, a) \<Rightarrow>
                      (case processIconCatch (s\<lparr> assets := a \<rparr>) brandName ic e of
                         (thrown, s1) \<Rightarrow> (Some thrown, s1, results))
                  | (Inr result, a) \<Rightarrow>
                      (if isUpdate
                       then (None,
                             s\<lparr> assets := a,
                                syncStats := (syncStats s)\<lparr> nUpdated := nUpdated (syncStats s) + 1 \<rparr> \<rparr>,
                             results\<lparr> r_updated := r_updated results @ [(iname ic, Updated)] \<rparr>)
                       else (None,
                             s\<lparr> assets := a,
                                syncStats := (syncStats s)\<lparr> nAdded := nAdded (syncStats s) + 1 \<rparr> \<rparr>,
                             results\<lparr> r_added := r_added results @ [(iname ic, Added)] \<rparr>))))))"

text \<open>The loop \<open>for (const icon of icons)\<close> of \<open>downloadAndSyncIcons\<close>, with its \<open>catch\<close>.\<close>

fun processIcons ::
  "bool \<Rightarrow> remote \<Rightarrow> string \<Rightarrow> (string \<Rightarrow> string option) \<Rightarrow> (string \<times> icon) list
     \<Rightarrow> remote_icon list \<Rightarrow> sync_state \<times> brand_results \<Rightarrow> sync_state \<times> brand_results" where
  "processIcons dryRun rem brandName images currentIcons [] sr = sr"
| "processIcons dryRun rem brandName images currentIcons (ic # icons) sr =
     processIcons dryRun rem brandName images currentIcons icons
       (case processIcon dryRun rem (fst sr) brandName ic (images (nodeId ic)) currentIcons (snd sr) of
          (None, s1, results1) \<Rightarrow> (s1, results1)
        | (Some e, s1, results1) \<Rightarrow>
            (addStatError (ICON_PROCESS_ERROR brandName (iname ic) e) s1,
             results1\<lparr> r_errors := r_errors results1 @ [IconFailed (iname ic) e] \<rparr>))"

text \<open>\<open>handleRemovedIcons\<close>: the loop over \<open>Object.keys(currentIcons)\<close>.\<close>

fun handleRemovedIcons ::
  "bool \<Rightarrow> string \<Rightarrow> string list \<Rightarrow> string list
     \<Rightarrow> sync_state \<times> brand_results \<Rightarrow> sync_state \<times> brand_results" where
  "handleRemovedIcons dryRun brandName figmaIconNames [] sr = sr"
| "handleRemovedIcons dryRun brandName figmaIconNames (currentIconName # names) sr =
     handleRemovedIcons dryRun brandName figmaIconNames names
       (if currentIconName \<in> set figmaIconNames then sr
        else if dryRun then
          (fst sr, (snd sr)\<lparr> r_removed := r_removed (snd sr) @ [(currentIconName, WouldRemove)] \<rparr>)
        else
          (case removeIconFromBrand (assets (fst sr)) brandName currentIconName of
             (Inr result, a) \<Rightarrow>
               ((fst sr)\<lparr> assets := a,
                    syncStats := (syncStats (fst sr))\<lparr> nRemoved := nRemoved (syncStats (fst sr)) + 1 \<rparr> \<rparr>,
                (snd sr)\<lparr> r_removed := r_removed (snd sr) @ [(currentIconName, Removed)] \<rparr>)
           | (Inl e, a) \<Rightarrow>
               ((fst sr)\<lparr> assets := a \<rparr>,
                (snd sr)\<lparr> r_errors := r_errors (snd sr) @ [RemoveFailed currentIconName e] \<rparr>)))"

text \<open>
  The body of the loop over the brands of \<open>downloadAndSyncIcons\<close>: the brand directory
  is created unless the run is a dry run (\<open>BRAND_EXISTS\<close> is swallowed), the icons are
  exported in one call and processed one by one, then the removed icons are handled.
  \<open>currentIcons\<close> is \<^verbatim>\<open>currentState[brandName] || {}\<close>.
\<close>

definition syncBrand ::
  "bool \<Rightarrow> remote \<Rightarrow> (string \<times> (string \<times> icon) list) list \<Rightarrow> sync_state
     \<Rightarrow> string \<Rightarrow> remote_icon list \<Rightarrow> sync_state \<times> brand_results" where
  "syncBrand dryRun rem currentState s brandName icons =
     (let currentIcons = (case map_of currentState brandName of None \<Rightarrow> [] | Some m \<Rightarrow> m);
          ensured =
            (if \<not> dryRun then
               (case createBrand (assets s) brandName of
                  (Inl e, a) \<Rightarrow> (if e \<noteq> BRAND_EXISTS then Some e else None, s\<lparr> assets := a \<rparr>)
                | (Inr created, a) \<Rightarrow> (None, s\<lparr> assets := a \<rparr>))
             else (None, s))
      in case ensured of
           (Some e, s1) \<Rightarrow>
             (addStatError (BRAND_PROCESS_ERROR brandName e) s1,
              emptyResults\<lparr> r_errors := [BrandFailed brandName e] \<rparr>)
         | (None, s1) \<Rightarrow>
             handleRemovedIcons dryRun brandName (map iname icons) (map fst currentIcons)
               (if icons \<noteq> [] then
                  (case exportNodes rem (map nodeId icons) of
                     Inl e \<Rightarrow>
                       (addStatError (EXPORT_ERROR brandName (FigmaApi e)) s1,
                        emptyResults\<lparr> r_errors := [ExportFailed brandName (FigmaApi e)] \<rparr>)
                   | Inr images \<Rightarrow>
                       processIcons dryRun rem brandName images currentIcons icons (s1, emptyResults))
                else (s1, emptyResults)))"

fun downloadAndSyncIcons ::
  "bool \<Rightarrow> remote \<Rightarrow> (string \<times> (string \<times> icon) list) list
     \<Rightarrow> (string \<times> remote_icon list) list \<Rightarrow> sync_state \<times> (string \<times> brand_results) list
     \<Rightarrow> sync_state \<times> (string \<times> brand_results) list" where
  "downloadAndSyncIcons dryRun rem currentState [] sr = sr"
| "downloadAndSyncIcons dryRun rem currentState ((brandName, icons) # rest) sr =
     downloadAndSyncIcons dryRun rem currentState rest
       (case syncBrand dryRun rem currentState (fst sr) brandName icons of
          (s1, results) \<Rightarrow> (s1, objSet (snd sr) brandName results))"

text \<open>\<open>updateTokensFile\<close>: nothing in a dry run, otherwise the file is written anew.\<close>

definition updateTokensFile ::
  "bool \<Rightarrow> (string \<times> remote_icon list) list \<Rightarrow> sync_state \<Rightarrow> sync_state" where
  "updateTokensFile dryRun figmaIcons s =
     (if dryRun then s else s\<lparr> tokensFile := Some (buildTokens figmaIcons []) \<rparr>)"

text \<open>
  \<open>syncIcons\<close>: the local snapshot, the remote listing, the per-brand sync, the tokens
  file.  A failing listing is rethrown as \<open>SYNC_FAILED\<close>.
\<close>

definition syncIcons ::
  "bool \<Rightarrow> remote \<Rightarrow> sync_state
     \<Rightarrow> (error_code + (string \<times> brand_results) list) \<times> sync_state" where
  "syncIcons dryRun rem s =
     (let currentBrands = getAllBrands (assets s);
          currentState = buildCurrentState (assets s) currentBrands []
      in case getIconsByBrand rem of
           Inl e \<Rightarrow> (Inl (SYNC_FAILED (FigmaApi e)), addStatError (SYNC_ERROR (FigmaApi e)) s)
         | Inr figmaIcons \<Rightarrow>
             (let s0 = s\<lparr> syncStats := (syncStats s)\<lparr>
                            totalBrands := length figmaIcons,
                            totalIcons := sum_list (map (\<lambda>entry. length (snd entry)) figmaIcons) \<rparr> \<rparr>
              in case downloadAndSyncIcons dryRun rem currentState figmaIcons (s0, []) of
                   (s1, downloadResults) \<Rightarrow>
                     (Inr downloadResults, updateTokensFile dryRun figmaIcons s1)))"

text \<open>Two states with the same asset store and the same tokens file.\<close>

definition sameFiles :: "sync_state \<Rightarrow> sync_state \<Rightarrow> bool" where
  "sameFiles s s' = (assets s' = assets s \<and> tokensFile s' = tokensFile s)"

section \<open>The multi-brand build (config-multi-brand: class MultiBrandBuilder)\<close>

text \<open>
  The build reads the asset store and writes below \<open>distDir\<close>.  Its state here is what
  the claims are about: the working directory of the process and the statistics.  The
  external tools are parameters: \<open>webfont\<close> is given by what it throws (if anything)
  when run in a working directory, every other stage by what it throws for a brand.
  The brands are built one after the other; in the source their promises are started
  in this order and run interleaved.
\<close>

datatype stage = StyleDictionary | SvgFiles | PngFiles | WebComponents | PackageJson

record tools =
  webfont :: "string \<Rightarrow> error_code option"
  stageThrows :: "stage \<Rightarrow> string \<Rightarrow> error_code option"

record build_config =
  assetsDir :: string
  platform :: string
  brands :: "string list"

record build_state =
  cwd :: string
  builtIcons :: nat
  buildErrors :: "(string \<times> error_code) list"

text \<open>\<open>process.chdir\<close> into a brand directory throws unless it is a directory.\<close>

definition isBrandDirectory :: "store \<Rightarrow> string \<Rightarrow> bool" where
  "isBrandDirectory st dir = (case map_of st dir of Some (BrandDir d) \<Rightarrow> True | _ \<Rightarrow> False)"

text \<open>
  \<open>generateFontFiles\<close>: the working directory is changed to the brand's asset
  directory, \<open>webfont\<close> is awaited, and the statement after it changes back.  An error
  thrown by \<open>webfont\<close> goes to the \<open>catch\<close> of the function, which logs and rethrows.
\<close>

definition generateFontFiles ::
  "build_config \<Rightarrow> tools \<Rightarrow> store \<Rightarrow> build_state \<Rightarrow> string \<Rightarrow> error_code option \<times> build_state" where
  "generateFontFiles cfg tls st bs brandName =
     (case getBrandDirectory brandName of
        Inl e \<Rightarrow> (Some e, bs)
      | Inr dir \<Rightarrow>
          (let brandAssetsDir = joinPath (assetsDir cfg) dir;
               originalCwd = cwd bs
           in if \<not> isBrandDirectory st dir then (Some FS_ERROR, bs)
              else (let bs1 = bs\<lparr> cwd := brandAssetsDir \<rparr> in
                    case webfont tls (cwd bs1) of
                      Some e \<Rightarrow> (Some e, bs1)
                    | None \<Rightarrow> (None, bs1\<lparr> cwd := originalCwd \<rparr>))))"

definition runStage ::
  "error_code option \<times> build_state \<Rightarrow> (build_state \<Rightarrow> error_code option \<times> build_state)
     \<Rightarrow> error_code option \<times> build_state" where
  "runStage r next = (case r of (Some e, bs) \<Rightarrow> (Some e, bs) | (None, bs) \<Rightarrow> next bs)"

definition otherStage ::
  "tools \<Rightarrow> stage \<Rightarrow> string \<Rightarrow> build_state \<Rightarrow> error_code option \<times> build_state" where
  "otherStage tls stg brandName bs = (stageThrows tls stg brandName, bs)"

definition selected :: "build_config \<Rightarrow> string \<Rightarrow> bool" where
  "selected cfg p = (platform cfg = ''all'' \<or> platform cfg = p)"

text \<open>
  \<open>buildBrand\<close>: \<open>None\<close> is a fulfilled promise, \<open>Some e\<close> one rejected with \<open>e\<close>.  With
  an empty icon list the function logs and returns.
\<close>

definition buildBrand ::
  "build_config \<Rightarrow> tools \<Rightarrow> store \<Rightarrow> build_state \<Rightarrow> string \<Rightarrow> error_code option \<times> build_state" where
  "buildBrand cfg tls st bs brandName =
     (case getIconsForBrand st brandName of
        Inl e \<Rightarrow> (Some e, bs)
      | Inr brandIcons \<Rightarrow>
          if brandIcons = [] then (None, bs)
          else
            runStage (runStage (runStage (runStage (runStage
              (otherStage tls StyleDictionary brandName
                 (bs\<lparr> builtIcons := builtIcons bs + length brandIcons \<rparr>))
              (\<lambda>b. if selected cfg ''svg'' then otherStage tls SvgFiles brandName b else (None, b)))
              (\<lambda>b. if selected cfg ''png'' then otherStage tls PngFiles brandName b else (None, b)))
              (\<lambda>b. if selected cfg ''font'' then generateFontFiles cfg tls st b brandName else (None, b)))
              (\<lambda>b. if selected cfg ''webcomponent'' then otherStage tls WebComponents brandName b
                    else (None, b)))
              (otherStage tls PackageJson brandName))"

definition getBrandsToProcess :: "build_config \<Rightarrow> store \<Rightarrow> string list" where
  "getBrandsToProcess cfg st =
     (if brands cfg \<noteq> [] then brands cfg
      else map bname (filter (\<lambda>b. iconCount b > 0) (getAllBrands st)))"

fun buildBrands ::
  "build_config \<Rightarrow> tools \<Rightarrow> store \<Rightarrow> string list \<Rightarrow> build_state
     \<Rightarrow> (string \<times> error_code option) list \<times> build_state" where
  "buildBrands cfg tls st [] bs = ([], bs)"
| "buildBrands cfg tls st (b # rest) bs =
     (case buildBrand cfg tls st bs b of
        (r, bs1) \<Rightarrow>
          (case buildBrands cfg tls st rest bs1 of
             (rs, bs2) \<Rightarrow> ((b, r) # rs, bs2)))"

text \<open>
  \<open>build\<close>, after its dependencies are loaded and the setup is validated: the brands
  are built, a fulfilled promise counts as a success, a rejected one is recorded in
  \<open>buildStats.errors\<close> with its brand.  The result is the value returned.
\<close>

definition build :: "build_config \<Rightarrow> tools \<Rightarrow> store \<Rightarrow> build_state \<Rightarrow> bool \<times> build_state" where
  "build cfg tls st bs =
     (let brandsToProcess = getBrandsToProcess cfg st in
      if brandsToProcess = [] then (False, bs)
      else (case buildBrands cfg tls st brandsToProcess bs of
              (results, bs1) \<Rightarrow>
                (let successCount = length (filter (\<lambda>r. snd r = None) results);
                     failures = List.map_filter
                       (\<lambda>r. case snd r of None \<Rightarrow> None | Some e \<Rightarrow> Some (fst r, e)) results
                 in (successCount = length brandsToProcess,
                     bs1\<lparr> buildErrors := buildErrors bs1 @ failures \<rparr>))))"


section \<open>Scenarios\<close>

text \<open>
  The scenario of the specification: the store holds brand \<open>global\<close> with the icon
  \<open>hamburger\<close>; the remote listing has brand \<open>global\<close> with \<open>hamburger\<close> and
  \<open>ice-cream\<close>; the export gives a URL for every node and every download succeeds.
\<close>

definition localStore :: store where
  "localStore = [(''global'', BrandDir [(''hamburger.svg'', File ''<svg>old</svg>'')])]"

definition remoteListing :: "(string \<times> remote_icon list) list" where
  "remoteListing =
     [(''global'',
       [\<lparr> nodeId = ''1:1'', iname = ''hamburger'', idescription = [],
           ioriginalName = ''Hamburger'' \<rparr>,
        \<lparr> nodeId = ''1:2'', iname = ''ice-cream'', idescription = [],
           ioriginalName = ''Ice Cream'' \<rparr>])]"

definition remoteOk :: remote where
  "remoteOk =
     \<lparr> getIconsByBrand = Inr remoteListing,
       exportNodes = (\<lambda>ids. Inr (\<lambda>i. if i \<in> set ids then Some (''https://img/'' @ i) else None)),
       fetchSvg = (\<lambda>url. Inr (''<svg>'' @ url @ ''</svg>'')) \<rparr>"

definition localState :: sync_state where
  "localState = \<lparr> assets = localStore, tokensFile = None, syncStats = emptyStats \<rparr>"

text \<open>A store in which the icon \<open>logo\<close> of brand \<open>global\<close> exists as a PNG file only.\<close>

definition pngStore :: store where
  "pngStore = [(''global'', BrandDir [(''logo.png'', File ''PNG'')])]"

text \<open>
  A build of the font platform for the brand \<open>global\<close>, started in \<open>/repo\<close>, in which
  \<open>webfont\<close> throws; and a build of the brand \<open>empty\<close>, whose directory has no icon.
\<close>

definition failingFont :: tools where
  "failingFont = \<lparr> webfont = (\<lambda>dir. Some TOOL_ERROR), stageThrows = (\<lambda>stg brandName. None) \<rparr>"

definition workingTools :: tools where
  "workingTools = \<lparr> webfont = (\<lambda>dir. None), stageThrows = (\<lambda>stg brandName. None) \<rparr>"

definition fontBuild :: build_config where
  "fontBuild = \<lparr> assetsDir = ''/repo/assets'', platform = ''font'', brands = [''global''] \<rparr>"

definition emptyBrandBuild :: build_config where
  "emptyBrandBuild = \<lparr> assetsDir = ''/repo/assets'', platform = ''all'', brands = [''empty''] \<rparr>"

definition storeWithEmptyBrand :: store where
  "storeWithEmptyBrand = localStore @ [(''empty'', BrandDir [])]"

definition initialBuild :: build_state where
  "initialBuild = \<lparr> cwd = ''/repo'', builtIcons = 0, buildErrors = [] \<rparr>"

section \<open>Normalisation: the normal form and idempotence\<close>

lemma upper_codes:
  "c \<in> set ''ABCDEFGHIJKLMNOPQRSTUVWXYZ'' \<Longrightarrow> (of_char c :: nat) < 97 \<and> 57 < (of_char c :: nat)"
  by auto

lemma lower_codes:
  "isLowerAlnum c \<or> c = CHR ''-'' \<Longrightarrow> 97 \<le> (of_char c :: nat) \<or> (of_char c :: nat) \<le> 57"
  unfolding isLowerAlnum_def lowerAlnum_def by auto

lemma toLowerChar_fix:
  assumes "isLowerAlnum c \<or> c = CHR ''-''"
  shows "toLowerChar c = c"
proof -
  define U where "U = ''ABCDEFGHIJKLMNOPQRSTUVWXYZ''"
  define L where "L = ''abcdefghijklmnopqrstuvwxyz''"
  have len: "length U = length L" by (simp add: U_def L_def)
  have "c \<notin> set U"
    unfolding U_def using upper_codes[of c] lower_codes[OF assms] by linarith
  moreover have "fst ` set (zip U L) = set U"
    using len by (metis map_fst_zip set_map)
  ultimately have "map_of (zip U L) c = None"
    by (simp add: map_of_eq_None_iff)
  then show ?thesis by (simp add: toLowerChar_def U_def L_def)
qed

lemma hyphen_not_alnum: "\<not> isLowerAlnum CHR ''-''"
  by (simp add: isLowerAlnum_def lowerAlnum_def)

lemma collapse_set: "set (collapseHyphens s) \<subseteq> set s"
  by (induction s rule: collapseHyphens.induct) auto

lemma collapse_hd: "s \<noteq> [] \<Longrightarrow> hd (collapseHyphens s) = hd s"
  by (induction s rule: collapseHyphens.induct) auto

lemma collapse_nil: "collapseHyphens s = [] \<longleftrightarrow> s = []"
  by (induction s rule: collapseHyphens.induct) auto

lemma collapse_noDouble: "noDoubleHyphen (collapseHyphens s)"
proof (induction s rule: collapseHyphens.induct)
  case (1 a b cs)
  then show ?case
    using collapse_hd[of "b # cs"] collapse_nil[of "b # cs"]
    by (cases "collapseHyphens (b # cs)") auto
qed auto

lemma collapse_id: "noDoubleHyphen s \<Longrightarrow> collapseHyphens s = s"
  by (induction s rule: collapseHyphens.induct) auto

lemma noDouble_tl: "noDoubleHyphen (c # s) \<Longrightarrow> noDoubleHyphen s"
  by (cases s) auto

lemma noDouble_butlast: "noDoubleHyphen s \<Longrightarrow> noDoubleHyphen (butlast s)"
  by (induction s rule: noDoubleHyphen.induct) (auto split: if_splits)

lemma noDouble_stripLeading: "noDoubleHyphen s \<Longrightarrow> noDoubleHyphen (stripLeading s)"
  by (auto simp: stripLeading_def split: list.splits dest: noDouble_tl)

lemma noDouble_stripTrailing: "noDoubleHyphen s \<Longrightarrow> noDoubleHyphen (stripTrailing s)"
  by (simp add: stripTrailing_def noDouble_butlast)

lemma noDouble_stripEnds: "noDoubleHyphen s \<Longrightarrow> noDoubleHyphen (stripEnds s)"
  by (simp add: stripEnds_def noDouble_stripLeading noDouble_stripTrailing)

lemma set_stripEnds: "set (stripEnds s) \<subseteq> set s"
  by (auto simp: stripEnds_def stripLeading_def stripTrailing_def
      split: list.splits if_splits dest: in_set_butlastD)

lemma noDouble_last:
  "noDoubleHyphen s \<Longrightarrow> last s = CHR ''-'' \<Longrightarrow> butlast s \<noteq> [] \<Longrightarrow> last (butlast s) \<noteq> CHR ''-''"
  by (induction s rule: noDoubleHyphen.induct) (auto split: if_splits)

lemma hd_stripLeading:
  "noDoubleHyphen s \<Longrightarrow> stripLeading s \<noteq> [] \<Longrightarrow> hd (stripLeading s) \<noteq> CHR ''-''"
  by (cases s; cases "tl s") (auto simp: stripLeading_def)

lemma noEdge_stripTrailing:
  assumes "noDoubleHyphen t" "t \<noteq> [] \<Longrightarrow> hd t \<noteq> CHR ''-''"
  shows "noEdgeHyphen (stripTrailing t)"
proof (cases "t \<noteq> [] \<and> last t = CHR ''-''")
  case True
  then have r: "stripTrailing t = butlast t" by (simp add: stripTrailing_def)
  show ?thesis
  proof (cases "butlast t = []")
    case True
    then show ?thesis by (simp add: r noEdgeHyphen_def)
  next
    case False
    then have "hd (butlast t) = hd t" by (cases t) auto
    with False True assms noDouble_last[of t] show ?thesis
      by (simp add: r noEdgeHyphen_def)
  qed
next
  case False
  then show ?thesis using assms by (auto simp: stripTrailing_def noEdgeHyphen_def)
qed

lemma noEdge_stripEnds: "noDoubleHyphen s \<Longrightarrow> noEdgeHyphen (stripEnds s)"
  unfolding stripEnds_def
  by (rule noEdge_stripTrailing) (simp_all add: noDouble_stripLeading hd_stripLeading)

lemma stripEnds_id: "noEdgeHyphen s \<Longrightarrow> stripEnds s = s"
  by (cases s) (auto simp: noEdgeHyphen_def stripEnds_def stripLeading_def stripTrailing_def)

lemma set_replaceNonAlnum: "c \<in> set (replaceNonAlnum s) \<Longrightarrow> isLowerAlnum c \<or> c = CHR ''-''"
  by (auto simp: replaceNonAlnum_def)

lemma set_sanitize: "c \<in> set (sanitize x) \<Longrightarrow> isLowerAlnum c \<or> c = CHR ''-''"
  unfolding sanitize_def
  using set_stripEnds collapse_set set_replaceNonAlnum by blast

lemma noDouble_sanitize: "noDoubleHyphen (sanitize x)"
  by (simp add: sanitize_def noDouble_stripEnds collapse_noDouble)

lemma noEdge_sanitize: "noEdgeHyphen (sanitize x)"
  by (simp add: sanitize_def noEdge_stripEnds collapse_noDouble)

lemma normal_fix:
  assumes "\<forall>c\<in>set s. isLowerAlnum c \<or> c = CHR ''-''" "noDoubleHyphen s" "noEdgeHyphen s"
  shows "sanitize s = s"
proof -
  have "toLowerCase s = s"
    unfolding toLowerCase_def using assms(1) by (simp add: map_idI toLowerChar_fix)
  moreover have "replaceNonAlnum s = s"
    unfolding replaceNonAlnum_def using assms(1) by (intro map_idI) auto
  ultimately show ?thesis
    using assms by (simp add: sanitize_def collapse_id stripEnds_id)
qed

lemma sanitize_idem: "sanitize (sanitize x) = sanitize x"
  by (rule normal_fix) (auto simp: noDouble_sanitize noEdge_sanitize dest: set_sanitize)

lemma toLowerCase_sanitize: "toLowerCase (sanitize x) = sanitize x"
  unfolding toLowerCase_def by (rule map_idI) (auto dest: set_sanitize intro: toLowerChar_fix)

subsection \<open>The implementation computes the normal form of the specification\<close>

lemma collapse_cons_nonhyphen:
  "c \<noteq> CHR ''-'' \<Longrightarrow> collapseHyphens (c # r) = c # collapseHyphens r"
  by (cases r) auto

lemma hyphenated_nil_iff: "collapseHyphens (replaceNonAlnum s) = [] \<longleftrightarrow> s = []"
  by (simp add: replaceNonAlnum_def collapse_nil)

lemma hyphenated_cons_alnum:
  assumes "isLowerAlnum c"
  shows "collapseHyphens (replaceNonAlnum (c # s)) = c # collapseHyphens (replaceNonAlnum s)"
proof -
  have "c \<noteq> CHR ''-''" using assms hyphen_not_alnum by auto
  then show ?thesis using assms by (simp add: replaceNonAlnum_def collapse_cons_nonhyphen)
qed

lemma hyphenated_cons_other:
  "\<not> isLowerAlnum c \<Longrightarrow> collapseHyphens (replaceNonAlnum (c # s)) =
     (case s of [] \<Rightarrow> ''-''
      | d # _ \<Rightarrow> if isLowerAlnum d then CHR ''-'' # collapseHyphens (replaceNonAlnum s)
                 else collapseHyphens (replaceNonAlnum s))"
  using hyphen_not_alnum by (cases s) (auto simp: replaceNonAlnum_def)

lemma runs_nonempty: "isLowerAlnum c \<Longrightarrow> alnumRuns (c # s) \<noteq> []"
  by (auto split: list.splits)

lemma join_cons_alnum_alnum:
  "isLowerAlnum c \<Longrightarrow> isLowerAlnum d \<Longrightarrow>
   joinHyphen (alnumRuns (c # d # s)) = c # joinHyphen (alnumRuns (d # s))"
  using runs_nonempty[of d s] by (cases "alnumRuns (d # s)") auto

lemma join_cons_alnum_other:
  "isLowerAlnum c \<Longrightarrow> s = [] \<or> \<not> isLowerAlnum (hd s) \<Longrightarrow>
   joinHyphen (alnumRuns (c # s)) =
     c # (if alnumRuns s = [] then [] else CHR ''-'' # joinHyphen (alnumRuns s))"
  by auto

lemma stripTrailing_cons: "r \<noteq> [] \<Longrightarrow> stripTrailing (c # r) = c # stripTrailing r"
  by (simp add: stripTrailing_def)

lemma stripTrailing_hyphenated:
  "stripTrailing (collapseHyphens (replaceNonAlnum s)) =
     (case s of [] \<Rightarrow> []
      | c # _ \<Rightarrow> if isLowerAlnum c then joinHyphen (alnumRuns s)
                 else if alnumRuns s = [] then [] else CHR ''-'' # joinHyphen (alnumRuns s))"
proof (induction s)
  case Nil
  show ?case by (simp add: replaceNonAlnum_def stripTrailing_def)
next
  case (Cons c s)
  show ?case
  proof (cases s)
    case Nil
    then show ?thesis
      using hyphen_not_alnum
      by (cases "isLowerAlnum c") (auto simp: replaceNonAlnum_def stripTrailing_def)
  next
    case (Cons d s')
    have ne: "collapseHyphens (replaceNonAlnum s) \<noteq> []"
      using Cons by (simp add: hyphenated_nil_iff)
    show ?thesis
    proof (cases "isLowerAlnum c")
      case c: True
      then have "stripTrailing (collapseHyphens (replaceNonAlnum (c # s)))
                 = c # stripTrailing (collapseHyphens (replaceNonAlnum s))"
        by (simp add: hyphenated_cons_alnum stripTrailing_cons ne)
      also have "\<dots> = joinHyphen (alnumRuns (c # s))"
      proof (cases "isLowerAlnum d")
        case True
        then show ?thesis using c Cons Cons.IH
          by (simp add: join_cons_alnum_alnum del: alnumRuns.simps joinHyphen.simps)
      next
        case False
        then show ?thesis using c Cons Cons.IH
          by (simp add: join_cons_alnum_other del: alnumRuns.simps joinHyphen.simps)
      qed
      finally show ?thesis using c by simp
    next
      case c: False
      show ?thesis
      proof (cases "isLowerAlnum d")
        case True
        have "collapseHyphens (replaceNonAlnum (c # s))
              = CHR ''-'' # collapseHyphens (replaceNonAlnum s)"
          using c True Cons by (simp add: hyphenated_cons_other)
        then have "stripTrailing (collapseHyphens (replaceNonAlnum (c # s)))
                   = CHR ''-'' # stripTrailing (collapseHyphens (replaceNonAlnum s))"
          using ne by (simp add: stripTrailing_cons)
        then have "stripTrailing (collapseHyphens (replaceNonAlnum (c # s)))
                   = CHR ''-'' # joinHyphen (alnumRuns s)"
          using True Cons Cons.IH by simp
        moreover have "alnumRuns (c # s) \<noteq> []"
          using c True Cons runs_nonempty[of d s'] by simp
        ultimately show ?thesis using c by simp
      next
        case False
        then have "stripTrailing (collapseHyphens (replaceNonAlnum (c # s)))
                   = stripTrailing (collapseHyphens (replaceNonAlnum s))"
          using c Cons by (simp add: hyphenated_cons_other)
        then show ?thesis using c False Cons Cons.IH by simp
      qed
    qed
  qed
qed

lemma strip_commute: "stripTrailing (stripLeading s) = stripLeading (stripTrailing s)"
proof (cases s)
  case Nil
  then show ?thesis by (simp add: stripTrailing_def stripLeading_def)
next
  case (Cons c cs)
  then show ?thesis
    by (cases cs) (auto simp: stripTrailing_def stripLeading_def)
qed

lemma join_hd:
  "isLowerAlnum c \<Longrightarrow> joinHyphen (alnumRuns (c # s)) \<noteq> [] \<and> hd (joinHyphen (alnumRuns (c # s))) = c"
  by (cases s) (auto split: list.splits)

lemma stripEnds_hyphenated:
  "stripEnds (collapseHyphens (replaceNonAlnum s)) = joinHyphen (alnumRuns s)"
proof -
  have "stripEnds (collapseHyphens (replaceNonAlnum s))
        = stripLeading (stripTrailing (collapseHyphens (replaceNonAlnum s)))"
    by (simp add: stripEnds_def strip_commute)
  also have "\<dots> = joinHyphen (alnumRuns s)"
  proof (cases s)
    case Nil
    then show ?thesis by (simp add: stripTrailing_hyphenated stripLeading_def)
  next
    case (Cons c cs)
    show ?thesis
    proof (cases "isLowerAlnum c")
      case True
      then have "stripLeading (joinHyphen (alnumRuns (c # cs))) = joinHyphen (alnumRuns (c # cs))"
        using join_hd[of c cs] hyphen_not_alnum
        by (cases "joinHyphen (alnumRuns (c # cs))") (auto simp: stripLeading_def)
      then show ?thesis using True Cons by (simp add: stripTrailing_hyphenated)
    next
      case False
      then show ?thesis using Cons by (simp add: stripTrailing_hyphenated stripLeading_def)
    qed
  qed
  finally show ?thesis .
qed

lemma sanitize_refines: "sanitize x = normalize_spec x"
  using stripEnds_hyphenated[of "toLowerCase x"] by (simp add: sanitize_def normalize_spec_def)

lemmas sanitize_eval =
  sanitize_def stripEnds_def stripTrailing_def stripLeading_def replaceNonAlnum_def
  toLowerCase_def toLowerChar_def isLowerAlnum_def lowerAlnum_def

text \<open>
  Claim C7, as amended.  For every non-empty name both sanitizers return the normal form
  of the specification: the maximal runs of \<open>[a-z0-9]\<close> of the lowercased name joined by
  single hyphens.  It is lowercase, it has no two hyphens in a row and no hyphen at
  either end.  Sanitizing the result again returns it unchanged, provided the result is
  not the empty string.
\<close>

theorem sanitize_normal_form:
  assumes "x \<noteq> []"
  shows "sanitizeIconName x = Inr (sanitize x) \<and> sanitizeBrandName x = Inr (sanitize x)
       \<and> sanitize x = normalize_spec x
       \<and> (\<forall>c \<in> set (sanitize x). isLowerAlnum c \<or> c = CHR ''-'')
       \<and> toLowerCase (sanitize x) = sanitize x
       \<and> noDoubleHyphen (sanitize x) \<and> noEdgeHyphen (sanitize x)
       \<and> (sanitize x \<noteq> [] \<longrightarrow>
            sanitizeIconNameTwice x = sanitizeIconName x
          \<and> sanitizeBrandNameTwice x = sanitizeBrandName x)"
proof -
  have calls: "sanitizeIconName x = Inr (sanitize x)" "sanitizeBrandName x = Inr (sanitize x)"
    using assms by (simp_all add: sanitizeIconName_def sanitizeBrandName_def)
  have chars: "\<forall>c \<in> set (sanitize x). isLowerAlnum c \<or> c = CHR ''-''"
    using set_sanitize by blast
  have twice: "sanitize x \<noteq> [] \<longrightarrow>
      sanitizeIconNameTwice x = sanitizeIconName x \<and> sanitizeBrandNameTwice x = sanitizeBrandName x"
    using assms
    by (simp add: sanitizeIconNameTwice_def sanitizeBrandNameTwice_def sanitizeIconName_def
        sanitizeBrandName_def sanitize_idem)
  from calls chars twice show ?thesis
    by (simp add: sanitize_refines[symmetric] toLowerCase_sanitize noDouble_sanitize
        noEdge_sanitize)
qed

theorem sanitize_normal_form_witness:
  "sanitizeIconName ''Ice  Cream!'' = Inr ''ice-cream''
   \<and> normalize_spec ''Ice  Cream!'' = ''ice-cream''
   \<and> sanitizeIconNameTwice ''Ice  Cream!'' = Inr ''ice-cream''"
proof -
  have ne: "''Ice  Cream!'' \<noteq> []" by simp
  have v: "sanitize ''Ice  Cream!'' = ''ice-cream''" by (simp add: sanitize_eval)
  from sanitize_normal_form[OF ne] show ?thesis unfolding v by simp
qed

theorem sanitize_twice_counterexample:
  "sanitizeIconNameTwice ''!'' \<noteq> sanitizeIconName ''!''"
  by (simp add: sanitizeIconNameTwice_def sanitizeIconName_def sanitize_eval)


section \<open>The asset store: adding and removing icons\<close>

lemma map_of_objSet: "map_of (objSet l k v) k' = (if k' = k then Some v else map_of l k')"
  by (induction l k v rule: objSet.induct) auto

lemma objSet_objSet: "objSet (objSet l k a) k b = objSet l k b"
  by (induction l k a rule: objSet.induct) auto

lemma objSet_id: "map_of l k = Some v \<Longrightarrow> objSet l k v = l"
  by (induction l k v rule: objSet.induct) (auto split: if_splits)

lemma objSet_new: "map_of l k = None \<Longrightarrow> objSet l k v = l @ [(k, v)]"
  by (induction l k v rule: objSet.induct) (auto split: if_splits)

lemma map_of_snoc_new: "map_of d f = None \<Longrightarrow> map_of (d @ [(f, e)]) f' = (if f' = f then Some e else map_of d f')"
  by (induction d) (auto split: if_splits)

lemma filter_absent: "map_of d f = None \<Longrightarrow> filter (\<lambda>item. fst item \<noteq> f) d = d"
  by (induction d) (auto split: if_splits)

lemma storeFiles_append_empty: "storeFiles (st @ [(dir, BrandDir [])]) = storeFiles st"
  by (simp add: storeFiles_def)

lemma brand_dir_ok:
  assumes "sanitize B \<noteq> []"
  shows "sanitizeBrandName B = Inr (sanitize B)"
    and "sanitizeBrandName (sanitize B) = Inr (sanitize B)"
    and "getBrandDirectory (sanitize B) = Inr (sanitize B)"
proof -
  have "B \<noteq> []" using assms by (auto simp: sanitize_eval)
  then show "sanitizeBrandName B = Inr (sanitize B)" by (simp add: sanitizeBrandName_def)
  show "sanitizeBrandName (sanitize B) = Inr (sanitize B)"
    using assms by (simp add: sanitizeBrandName_def sanitize_idem)
  then show "getBrandDirectory (sanitize B) = Inr (sanitize B)"
    by (simp add: getBrandDirectory_def)
qed

lemma createBrand_sanitized:
  assumes "sanitize B \<noteq> []"
  shows "createBrand st (sanitize B) =
     (if brandExists st (sanitize B) then (Inl BRAND_EXISTS, st)
      else (Inr (sanitize B), st @ [(sanitize B, BrandDir [])]))"
  by (simp add: createBrand_def brand_dir_ok[OF assms])

lemma sanitize_nil: "sanitize [] = []"
  by (simp add: sanitize_eval)

lemma addIcon_unfold:
  assumes "sanitize B \<noteq> []" "I \<noteq> []"
  shows "addIconToBrand st B I C fmt =
     (let dir = sanitize B; st1 = ensured st dir; filename = sanitize I @ ''.'' @ fmt in
      if fileExists st1 dir filename then (Inl ICON_EXISTS, st1)
      else if fmt = ''svg'' \<and> \<not> includesStr C ''<svg''
        then (Inl (ADD_ICON_ERROR INVALID_SVG_CONTENT), st1)
      else (case writeNewFile st1 dir filename C of
              None \<Rightarrow> (Inl (ADD_ICON_ERROR FS_ERROR), st1)
            | Some st2 \<Rightarrow>
                (Inr \<lparr> rbrand = sanitize B, rname = sanitize I,
                       rpath = joinPath dir filename, rformat = fmt \<rparr>, st2)))"
proof -
  have i: "sanitizeIconName I = Inr (sanitize I)"
    using assms(2) by (simp add: sanitizeIconName_def)
  have e: "(if \<not> brandExists st (sanitize B) then createBrand st (sanitize B)
            else (Inr (sanitize B), st)) = (Inr (sanitize B), ensured st (sanitize B))"
    by (simp add: createBrand_sanitized[OF assms(1)] ensured_def)
  show ?thesis
    unfolding addIconToBrand_def
    by (simp only: brand_dir_ok[OF assms(1)] i e sum.case prod.case Let_def)
qed

lemma addIcon_bad_names:
  assumes "sanitize B = [] \<or> I = []"
  shows "\<exists>e. addIconToBrand st B I C fmt = (Inl e, st)"
  using assms
  by (auto simp: addIconToBrand_def sanitizeIconName_def sanitizeBrandName_def
      getBrandDirectory_def split: sum.splits)

lemma fileExists_ensured: "fileExists (ensured st dir) dir f = fileExists st dir f"
  by (auto simp: ensured_def fileExists_def lookupFile_def brandExists_def map_of_snoc_new
      simp del: map_of_append)

lemma storeFiles_ensured: "storeFiles (ensured st dir) = storeFiles st"
  by (simp add: ensured_def storeFiles_append_empty)

lemma addIcon_success:
  assumes "addIconToBrand st B I C fmt = (Inr r, st')"
  obtains d0 where
    "sanitize B \<noteq> []" "I \<noteq> []"
    "map_of (ensured st (sanitize B)) (sanitize B) = Some (BrandDir d0)"
    "map_of d0 (sanitize I @ ''.'' @ fmt) = None"
    "st' = objSet (ensured st (sanitize B)) (sanitize B)
             (BrandDir (d0 @ [(sanitize I @ ''.'' @ fmt, File C)]))"
    "r = \<lparr> rbrand = sanitize B, rname = sanitize I,
           rpath = joinPath (sanitize B) (sanitize I @ ''.'' @ fmt), rformat = fmt \<rparr>"
proof -
  have names: "sanitize B \<noteq> []" "I \<noteq> []"
    using assms addIcon_bad_names[of B I st C fmt] by auto
  let ?dir = "sanitize B" and ?f = "sanitize I @ ''.'' @ fmt"
  let ?st1 = "ensured st ?dir"
  from assms have ne: "\<not> fileExists ?st1 ?dir ?f"
    and w: "\<exists>st2. writeNewFile ?st1 ?dir ?f C = Some st2 \<and> st' = st2"
    and r: "r = \<lparr> rbrand = sanitize B, rname = sanitize I,
                  rpath = joinPath ?dir ?f, rformat = fmt \<rparr>"
    unfolding addIcon_unfold[OF names] Let_def
    by (auto split: if_splits option.splits)
  from w obtain d0 where d0: "map_of ?st1 ?dir = Some (BrandDir d0)"
    and st': "st' = objSet ?st1 ?dir (BrandDir (d0 @ [(?f, File C)]))"
    by (auto simp: writeNewFile_def split: option.splits top_entry.splits)
  from ne d0 have fresh: "map_of d0 ?f = None"
    by (simp add: fileExists_def lookupFile_def)
  show ?thesis by (rule that[OF names d0 fresh st' r])
qed

lemma dot_not_in_sanitize: "CHR ''.'' \<notin> set (sanitize x)"
  using set_sanitize[of "CHR ''.''" x] by (auto simp: isLowerAlnum_def lowerAlnum_def)

lemma extname_plain:
  assumes "s \<noteq> []" "CHR ''.'' \<notin> set s" "CHR ''.'' \<notin> set e"
  shows "extname (s @ CHR ''.'' # e) = CHR ''.'' # e"
proof -
  let ?f = "s @ CHR ''.'' # e"
  have "\<forall>c \<in> set (rev e). c \<noteq> CHR ''.''" using assms(3) by auto
  then have "takeWhile (\<lambda>c. c \<noteq> CHR ''.'') (rev e @ CHR ''.'' # rev s) = rev e"
    by (subst takeWhile_append2) auto
  then have after: "length (takeWhile (\<lambda>c. c \<noteq> CHR ''.'') (rev ?f)) = length e" by simp
  have "hd ?f \<noteq> CHR ''.''" using assms(1,2) by (cases s) auto
  then have nd: "?f \<noteq> ''..''" by auto
  have pos: "length ?f - length e - 1 = length s" by simp
  show ?thesis
    unfolding extname_def Let_def after pos using nd assms(1) by simp
qed

lemma basename_plain: "s \<noteq> [] \<Longrightarrow> basename (s @ CHR ''.'' # e) (CHR ''.'' # e) = s"
  by (simp add: basename_def)

lemma format_facts:
  assumes "fmt \<in> set formatNames"
  shows "toLowerCase (CHR ''.'' # fmt) = CHR ''.'' # fmt"
    "CHR ''.'' # fmt \<in> set supportedFormats"
    "CHR ''.'' \<notin> set fmt"
  using assms by (auto simp: formatNames_def supportedFormats_def toLowerCase_def toLowerChar_def)

lemma iconOfEntry_plain:
  assumes "s \<noteq> []" "CHR ''.'' \<notin> set s" "fmt \<in> set formatNames"
  shows "iconOfEntry dir (s @ ''.'' @ fmt, File C) =
     Some \<lparr> name = s, filename = s @ ''.'' @ fmt, path = joinPath dir (s @ ''.'' @ fmt),
            format = fmt, fsize = length C \<rparr>"
proof -
  have n: "s @ ''.'' @ fmt = s @ CHR ''.'' # fmt" by simp
  have e: "extname (s @ CHR ''.'' # fmt) = CHR ''.'' # fmt"
    using assms format_facts(3) by (intro extname_plain) auto
  show ?thesis
    unfolding n iconOfEntry_def Let_def fst_conv snd_conv entry.case e
      format_facts(1)[OF assms(3)] basename_plain[OF assms(1)]
    using format_facts(2)[OF assms(3)] by simp
qed

lemma set_insertByName: "set (insertByName x ys) = insert x (set ys)"
  by (induction ys) auto

lemma set_sortByName: "set (sortByName xs) = set xs"
  unfolding sortByName_def by (induction xs) (auto simp: set_insertByName)

lemma listing_of_dir:
  assumes "sanitize B \<noteq> []" "map_of st (sanitize B) = Some (BrandDir d)"
  shows "getIconsForBrand st B =
     Inr (sortByName (List.map_filter (iconOfEntry (sanitize B)) d))"
  by (simp add: getIconsForBrand_def brand_dir_ok[OF assms(1)] assms(2))

lemma listed:
  assumes "sanitize B \<noteq> []" "map_of st (sanitize B) = Some (BrandDir d)"
    and "item \<in> set d" "iconOfEntry (sanitize B) item = Some ic"
  shows "\<exists>icons. getIconsForBrand st B = Inr icons \<and> ic \<in> set icons"
  using assms(3,4)
  by (force simp: listing_of_dir[OF assms(1,2)] set_sortByName List.map_filter_def)

lemma map_of_ensured: "brandExists st dir \<Longrightarrow> ensured st dir = st"
  by (simp add: ensured_def)

lemma removeIcon_unfold:
  assumes "sanitize B \<noteq> []" "I \<noteq> []"
  shows "removeIconFromBrand st B I =
     (if \<not> brandExists st (sanitize B) then (Inl BRAND_NOT_FOUND, st)
      else (case findIconFile st (sanitize B) (sanitize I) supportedFormats of
              None \<Rightarrow> (Inl ICON_NOT_FOUND, st)
            | Some ext \<Rightarrow>
                (case unlinkFile st (sanitize B) (sanitize I @ ext) of
                   None \<Rightarrow> (Inl (REMOVE_ICON_ERROR FS_ERROR), st)
                 | Some st1 \<Rightarrow>
                     (Inr \<lparr> rbrand = sanitize B, rname = sanitize I,
                            rpath = joinPath (sanitize B) (sanitize I @ ext),
                            rformat = drop 1 ext \<rparr>, st1))))"
proof -
  have i: "sanitizeIconName I = Inr (sanitize I)"
    using assms(2) by (simp add: sanitizeIconName_def)
  show ?thesis
    unfolding removeIconFromBrand_def
    by (simp only: brand_dir_ok[OF assms(1)] i sum.case)
qed

text \<open>The search of removeIconFromBrand stops at the first extension whose file exists.\<close>

lemma findIconFile_first:
  "findIconFile st dir s (pre @ ext # post) = Some ext"
  if "fileExists st dir (s @ ext)" "\<forall>e \<in> set pre. \<not> fileExists st dir (s @ e)"
  using that by (induction pre) auto

text \<open>
  With valid names and no icon file of that name, content without \<open><svg\<close> is refused
  by the content check inside the \<open>try\<close> block; the \<open>catch\<close> block of the same
  function rethrows its error as \<open>ADD_ICON_ERROR\<close>.
\<close>

lemma invalid_svg_error_is_wrapped:
  assumes "\<not> includesStr C ''<svg''" "sanitize B \<noteq> []" "I \<noteq> []"
    and "\<not> fileExists st (sanitize B) (sanitize I @ ''.svg'')"
  shows "fst (addIconToBrand st B I C ''svg'') = Inl (ADD_ICON_ERROR INVALID_SVG_CONTENT)"
  using assms by (simp add: addIcon_unfold Let_def fileExists_ensured)

text \<open>
  Claim C6, as amended.  For content without \<open><svg\<close>, \<open>addIconToBrand\<close> with format
  \<open>svg\<close> always throws and leaves every file of the store as it was (at most the empty
  brand directory is created).  The checks of the names and of the existing file come
  before the check of the content: with valid names, when the icon file exists already
  the error is \<open>ICON_EXISTS\<close>.
\<close>

theorem invalid_svg_rejected:
  assumes "\<not> includesStr C ''<svg''"
  shows "(\<exists>e. fst (addIconToBrand st B I C ''svg'') = Inl e)
       \<and> storeFiles (snd (addIconToBrand st B I C ''svg'')) = storeFiles st
       \<and> (sanitize B \<noteq> [] \<and> I \<noteq> [] \<and> fileExists st (sanitize B) (sanitize I @ ''.svg'')
            \<longrightarrow> addIconToBrand st B I C ''svg'' = (Inl ICON_EXISTS, st))"
proof (cases "sanitize B \<noteq> [] \<and> I \<noteq> []")
  case True
  then have names: "sanitize B \<noteq> []" "I \<noteq> []" by simp_all
  have "fileExists st (sanitize B) (sanitize I @ ''.svg'') \<Longrightarrow> ensured st (sanitize B) = st"
    by (auto simp: ensured_def fileExists_def lookupFile_def brandExists_def split: option.splits)
  then show ?thesis
    using assms
    by (auto simp: addIcon_unfold[OF names] Let_def fileExists_ensured storeFiles_ensured)
next
  case False
  then obtain e where "addIconToBrand st B I C ''svg'' = (Inl e, st)"
    using addIcon_bad_names[of B I st C "''svg''"] by auto
  with False show ?thesis by auto
qed

theorem invalid_svg_rejected_witness:
  "(\<exists>e. fst (addIconToBrand localStore ''global'' ''x'' ''hello'' ''svg'') = Inl e)
   \<and> storeFiles (snd (addIconToBrand localStore ''global'' ''x'' ''hello'' ''svg''))
     = storeFiles localStore
   \<and> addIconToBrand localStore ''global'' ''hamburger'' ''hello'' ''svg''
     = (Inl ICON_EXISTS, localStore)"
proof -
  have c: "\<not> includesStr ''hello'' ''<svg''" by simp
  have b: "sanitize ''global'' \<noteq> []" by (simp add: sanitize_eval)
  have h: "fileExists localStore (sanitize ''global'') (sanitize ''hamburger'' @ ''.svg'')"
    by code_simp
  from invalid_svg_rejected[OF c, of localStore "''global''" "''x''"]
       invalid_svg_rejected[OF c, of localStore "''global''" "''hamburger''"] b h
  show ?thesis by simp
qed

theorem invalid_svg_existing_icon_counterexample:
  "fst (addIconToBrand localStore ''global'' ''hamburger'' ''hello'' ''svg'') = Inl ICON_EXISTS
   \<and> fst (addIconToBrand localStore ''global'' ''hamburger'' ''hello'' ''svg'')
       \<noteq> Inl INVALID_SVG_CONTENT"
  by code_simp

text \<open>
  Claim C4.  After a successful \<open>addIconToBrand(B, I, C, format)\<close> with a supported
  format the store holds the file \<open>normalize(I).format\<close> with content \<open>C\<close> in the
  directory of brand \<open>normalize(B)\<close>, and the listing of the brand has an icon of that
  name and format (for a name whose normal form is not empty).  A second call with the
  same brand, name and format and any content throws \<open>ICON_EXISTS\<close> and leaves the
  store exactly as it was.
\<close>

theorem duplicate_add_rejected:
  assumes "fmt \<in> set formatNames" and "addIconToBrand st B I C fmt = (Inr r, st')"
  shows "rbrand r = sanitize B \<and> rname r = sanitize I \<and> rformat r = fmt
       \<and> lookupFile st' (sanitize B) (sanitize I @ ''.'' @ fmt) = Some (File C)
       \<and> (sanitize I \<noteq> [] \<longrightarrow>
            (\<exists>icons ic. getIconsForBrand st' B = Inr icons \<and> ic \<in> set icons
               \<and> name ic = sanitize I \<and> format ic = fmt))
       \<and> addIconToBrand st' B I C' fmt = (Inl ICON_EXISTS, st')"
proof -
  let ?dir = "sanitize B" and ?f = "sanitize I @ ''.'' @ fmt"
  from assms(2) obtain d0 where names: "sanitize B \<noteq> []" "I \<noteq> []"
    and d0: "map_of (ensured st ?dir) ?dir = Some (BrandDir d0)"
    and fresh: "map_of d0 ?f = None"
    and st': "st' = objSet (ensured st ?dir) ?dir (BrandDir (d0 @ [(?f, File C)]))"
    and r: "r = \<lparr> rbrand = sanitize B, rname = sanitize I,
                  rpath = joinPath ?dir ?f, rformat = fmt \<rparr>"
    by (rule addIcon_success)
  have dir': "map_of st' ?dir = Some (BrandDir (d0 @ [(?f, File C)]))"
    by (simp add: st' map_of_objSet)
  have stored: "lookupFile st' ?dir ?f = Some (File C)"
    using map_of_snoc_new[OF fresh, of "File C" ?f]
    by (simp add: lookupFile_def dir' del: map_of_append)
  have "brandExists st' ?dir" by (simp add: brandExists_def dir')
  then have ens: "ensured st' ?dir = st'" by (rule map_of_ensured)
  have again: "addIconToBrand st' B I C' fmt = (Inl ICON_EXISTS, st')"
    using stored by (simp add: addIcon_unfold[OF names] Let_def ens fileExists_def)
  have listing: "sanitize I \<noteq> [] \<longrightarrow>
      (\<exists>icons ic. getIconsForBrand st' B = Inr icons \<and> ic \<in> set icons
         \<and> name ic = sanitize I \<and> format ic = fmt)"
  proof
    assume ne: "sanitize I \<noteq> []"
    have "iconOfEntry ?dir (?f, File C) =
        Some \<lparr> name = sanitize I, filename = ?f, path = joinPath ?dir ?f, format = fmt,
               fsize = length C \<rparr>"
      using ne dot_not_in_sanitize assms(1) by (rule iconOfEntry_plain)
    moreover have "(?f, File C) \<in> set (d0 @ [(?f, File C)])" by simp
    ultimately obtain icons where
      "getIconsForBrand st' B = Inr icons"
      "\<lparr> name = sanitize I, filename = ?f, path = joinPath ?dir ?f, format = fmt,
         fsize = length C \<rparr> \<in> set icons"
      using listed[OF names(1) dir'] by blast
    then show "\<exists>icons ic. getIconsForBrand st' B = Inr icons \<and> ic \<in> set icons
         \<and> name ic = sanitize I \<and> format ic = fmt"
      by force
  qed
  from r stored listing again show ?thesis by simp
qed


theorem duplicate_add_rejected_witness:
  "addIconToBrand [] ''Global'' ''Ice Cream'' ''<svg>1</svg>'' ''svg''
     = (Inr \<lparr> rbrand = ''global'', rname = ''ice-cream'', rpath = ''global/ice-cream.svg'',
              rformat = ''svg'' \<rparr>,
        [(''global'', BrandDir [(''ice-cream.svg'', File ''<svg>1</svg>'')])])
   \<and> addIconToBrand [(''global'', BrandDir [(''ice-cream.svg'', File ''<svg>1</svg>'')])]
        ''Global'' ''Ice Cream'' ''<svg>2</svg>'' ''svg''
     = (Inl ICON_EXISTS, [(''global'', BrandDir [(''ice-cream.svg'', File ''<svg>1</svg>'')])])"
proof -
  have f: "''svg'' \<in> set formatNames" by (simp add: formatNames_def)
  have a: "addIconToBrand [] ''Global'' ''Ice Cream'' ''<svg>1</svg>'' ''svg''
     = (Inr \<lparr> rbrand = ''global'', rname = ''ice-cream'', rpath = ''global/ice-cream.svg'',
              rformat = ''svg'' \<rparr>,
        [(''global'', BrandDir [(''ice-cream.svg'', File ''<svg>1</svg>'')])])"
    by code_simp
  have again: "addIconToBrand [(''global'', BrandDir [(''ice-cream.svg'', File ''<svg>1</svg>'')])]
        ''Global'' ''Ice Cream'' ''<svg>2</svg>'' ''svg''
     = (Inl ICON_EXISTS, [(''global'', BrandDir [(''ice-cream.svg'', File ''<svg>1</svg>'')])])"
    using duplicate_add_rejected[OF f a, of "''<svg>2</svg>''"] by (elim conjE)
  from a again show ?thesis by (rule conjI)
qed

lemma extname_shorter: "extname f \<noteq> [] \<Longrightarrow> length (extname f) < length f"
  by (auto simp: extname_def Let_def split: if_splits)

lemma listed_name_nonempty:
  assumes "iconOfEntry dir item = Some ic"
  shows "name ic \<noteq> []"
proof -
  let ?ext = "toLowerCase (extname (fst item))"
  from assms have sup: "?ext \<in> set supportedFormats" and n: "name ic = basename (fst item) ?ext"
    by (auto simp: iconOfEntry_def Let_def split: entry.splits if_splits)
  from sup have "extname (fst item) \<noteq> []"
    by (auto simp: supportedFormats_def toLowerCase_def)
  then have "length ?ext < length (fst item)"
    using extname_shorter[of "fst item"] by (simp add: toLowerCase_def)
  then show ?thesis
    unfolding n basename_def by (auto split: if_splits)
qed

lemma listing_Inr:
  assumes "getIconsForBrand st B = Inr icons"
  obtains d where "sanitize B \<noteq> []" "map_of st (sanitize B) = Some (BrandDir d)"
    "icons = sortByName (List.map_filter (iconOfEntry (sanitize B)) d)"
proof -
  have b: "sanitize B \<noteq> []"
    using assms
    by (auto simp: getIconsForBrand_def sanitizeBrandName_def getBrandDirectory_def
        split: if_splits sum.splits)
  from assms obtain d where "map_of st (sanitize B) = Some (BrandDir d)"
    "icons = sortByName (List.map_filter (iconOfEntry (sanitize B)) d)"
    by (auto simp: getIconsForBrand_def brand_dir_ok[OF b]
        split: option.splits top_entry.splits)
  with b show ?thesis by (rule that)
qed

text \<open>
  Claim C10.  Let the listing of brand \<open>B\<close> have an icon named \<open>normalize(I)\<close> of
  format \<open>png\<close>, and let no entry \<open>normalize(I).svg\<close> exist in the brand directory.
  Then \<open>addIconToBrand(B, I, C, 'svg')\<close> never throws \<open>ICON_EXISTS\<close>; for content with
  \<open><svg\<close> it succeeds, after which the listing has two icons of the same name, the
  one of format \<open>png\<close> and one of format \<open>svg\<close>.  \<open>removeIconFromBrand(B, I)\<close> then
  removes the \<open>svg\<close> file, the first in the search order \<open>.svg\<close>, \<open>.png\<close>, \<open>.jpg\<close>,
  \<open>.jpeg\<close>, and nothing else: the store is again the one before the addition, with
  the PNG file in it.
\<close>

theorem duplicates_are_per_format:
  assumes listing: "getIconsForBrand st B = Inr icons"
    and png: "a \<in> set icons" "name a = sanitize I" "format a = ''png''"
    and nosvg: "\<not> fileExists st (sanitize B) (sanitize I @ ''.svg'')"
  shows "fst (addIconToBrand st B I C ''svg'') \<noteq> Inl ICON_EXISTS
       \<and> (includesStr C ''<svg'' \<longrightarrow>
            (\<exists>r st'. addIconToBrand st B I C ''svg'' = (Inr r, st')
               \<and> (\<exists>icons' b. getIconsForBrand st' B = Inr icons'
                       \<and> a \<in> set icons'
                       \<and> b \<in> set icons' \<and> name b = sanitize I \<and> format b = ''svg'')
               \<and> (\<exists>r' st''. removeIconFromBrand st' B I = (Inr r', st'')
                       \<and> rformat r' = ''svg'' \<and> st'' = st)))"
proof -
  let ?dir = "sanitize B"
  let ?svg = "sanitize I @ ''.svg''"
  from listing obtain d where b: "sanitize B \<noteq> []"
    and d: "map_of st ?dir = Some (BrandDir d)"
    and icons: "icons = sortByName (List.map_filter (iconOfEntry ?dir) d)"
    by (rule listing_Inr)
  from png(1) obtain item where item: "item \<in> set d" "iconOfEntry ?dir item = Some a"
    unfolding icons set_sortByName List.map_filter_def by auto
  have si: "sanitize I \<noteq> []"
    using listed_name_nonempty[OF item(2)] png(2) by simp
  then have i: "I \<noteq> []" by (auto simp: sanitize_nil)
  from nosvg d have fresh: "map_of d ?svg = None"
    by (simp add: fileExists_def lookupFile_def)
  have ens: "ensured st ?dir = st" by (simp add: ensured_def brandExists_def d)
  let ?st' = "objSet st ?dir (BrandDir (d @ [(?svg, File C)]))"
  have w: "writeNewFile st ?dir ?svg C = Some ?st'" by (simp add: writeNewFile_def d)
  have add: "addIconToBrand st B I C ''svg'' =
      (if \<not> includesStr C ''<svg'' then (Inl (ADD_ICON_ERROR INVALID_SVG_CONTENT), st)
       else (Inr \<lparr> rbrand = sanitize B, rname = sanitize I,
                   rpath = joinPath ?dir ?svg, rformat = ''svg'' \<rparr>, ?st'))"
    using nosvg w by (simp add: addIcon_unfold[OF b i] Let_def ens)
  have never: "fst (addIconToBrand st B I C ''svg'') \<noteq> Inl ICON_EXISTS"
    by (simp add: add)
  have dir': "map_of ?st' ?dir = Some (BrandDir (d @ [(?svg, File C)]))"
    by (simp add: map_of_objSet)
  have svg': "lookupFile ?st' ?dir ?svg = Some (File C)"
    using map_of_snoc_new[OF fresh, of "File C" ?svg]
    by (simp add: lookupFile_def dir' del: map_of_append)
  let ?b = "\<lparr> name = sanitize I, filename = ?svg, path = joinPath ?dir ?svg,
               format = ''svg'', fsize = length C \<rparr>"
  have fb: "iconOfEntry ?dir (?svg, File C) = Some ?b"
    using iconOfEntry_plain[OF si dot_not_in_sanitize, of "''svg''" ?dir C]
    by (simp add: formatNames_def)
  have l: "getIconsForBrand ?st' B =
      Inr (sortByName (List.map_filter (iconOfEntry ?dir) (d @ [(?svg, File C)])))"
    by (rule listing_of_dir[OF b dir'])
  have ina: "a \<in> set (sortByName (List.map_filter (iconOfEntry ?dir) (d @ [(?svg, File C)])))"
    using item unfolding set_sortByName List.map_filter_def by force
  have inb: "?b \<in> set (sortByName (List.map_filter (iconOfEntry ?dir) (d @ [(?svg, File C)])))"
    using fb unfolding set_sortByName List.map_filter_def by force
  have both: "\<exists>icons' b. getIconsForBrand ?st' B = Inr icons'
        \<and> a \<in> set icons' \<and> b \<in> set icons' \<and> name b = sanitize I \<and> format b = ''svg''"
    unfolding l using ina inb by (intro exI[of _ "sortByName _"] exI[of _ ?b]) simp
  have found: "findIconFile ?st' ?dir (sanitize I) supportedFormats = Some ''.svg''"
    using svg' by (simp add: supportedFormats_def fileExists_def)
  have "filter (\<lambda>item. fst item \<noteq> ?svg) (d @ [(?svg, File C)]) = d"
    by (simp add: filter_absent[OF fresh])
  then have unl: "unlinkFile ?st' ?dir ?svg = Some st"
    using map_of_snoc_new[OF fresh, of "File C" ?svg]
    by (simp add: unlinkFile_def dir' objSet_objSet objSet_id[OF d] del: map_of_append)
  have rem: "removeIconFromBrand ?st' B I =
      (Inr \<lparr> rbrand = sanitize B, rname = sanitize I,
              rpath = joinPath ?dir ?svg, rformat = ''svg'' \<rparr>, st)"
    using found unl by (simp add: removeIcon_unfold[OF b i] brandExists_def dir')
  show ?thesis
    using never add both rem by simp
qed

theorem duplicates_are_per_format_witness:
  "(\<exists>r st'. addIconToBrand pngStore ''global'' ''logo'' ''<svg/>'' ''svg'' = (Inr r, st')
      \<and> (\<exists>icons' b. getIconsForBrand st' ''global'' = Inr icons'
            \<and> \<lparr> name = ''logo'', filename = ''logo.png'', path = ''global/logo.png'',
                  format = ''png'', fsize = 3 \<rparr> \<in> set icons'
            \<and> b \<in> set icons' \<and> name b = ''logo'' \<and> format b = ''svg'')
      \<and> (\<exists>r' st''. removeIconFromBrand st' ''global'' ''logo'' = (Inr r', st'')
            \<and> rformat r' = ''svg'' \<and> st'' = pngStore))"
proof -
  let ?a = "\<lparr> name = ''logo'', filename = ''logo.png'', path = ''global/logo.png'',
               format = ''png'', fsize = 3 \<rparr>"
  have b: "sanitize ''global'' = ''global''" and i: "sanitize ''logo'' = ''logo''"
    by (simp_all add: sanitize_eval)
  have listing: "getIconsForBrand pngStore ''global'' = Inr [?a]" by code_simp
  have nosvg: "\<not> fileExists pngStore (sanitize ''global'') (sanitize ''logo'' @ ''.svg'')"
    by code_simp
  have c: "includesStr ''<svg/>'' ''<svg''" by simp
  from duplicates_are_per_format[OF listing, of ?a "''logo''" "''<svg/>''"] nosvg c
  show ?thesis unfolding b i by auto
qed

section \<open>The retry policy\<close>

lemma retryLoop_skip:
  assumes "k < attempts" 
    and "\<forall>j. i \<le> j \<and> j < k \<longrightarrow> (\<exists>e. requestFn j = Inl e \<and> \<not> isAuthError e)"
    and "i \<le> k"
  shows "retryLoop requestFn retryDelay attempts i slept =
         retryLoop requestFn retryDelay attempts k (slept @ map (\<lambda>j. retryDelay * 2 ^ j) [i..<k])"
  using assms
proof (induction "k - i" arbitrary: i slept)
  case 0
  then show ?case by simp
next
  case (Suc m)
  then have lt: "i < k" by simp
  with Suc.prems obtain e where e: "requestFn i = Inl e" "\<not> isAuthError e" by auto
  have step: "retryLoop requestFn retryDelay attempts i slept =
     retryLoop requestFn retryDelay attempts (Suc i) (slept @ [retryDelay * 2 ^ i])"
  proof -
    have "i < attempts" "i \<noteq> attempts - 1" using lt Suc.prems(1) by auto
    then show ?thesis using e by (subst retryLoop.simps) simp
  qed
  have "retryLoop requestFn retryDelay attempts (Suc i) (slept @ [retryDelay * 2 ^ i]) =
     retryLoop requestFn retryDelay attempts k
       ((slept @ [retryDelay * 2 ^ i]) @ map (\<lambda>j. retryDelay * 2 ^ j) [Suc i..<k])"
    using Suc.hyps(2) Suc.prems lt by (intro Suc.hyps(1)) auto
  with step lt show ?case by (simp add: upt_conv_Cons)
qed

lemma retryLoop_stop:
  assumes "k < attempts"
  shows "retryLoop requestFn retryDelay attempts k slept =
     (case requestFn k of
        Inr v \<Rightarrow> (Inr (Some v), Suc k, slept)
      | Inl e \<Rightarrow> if Suc k = attempts \<or> isAuthError e then (Inl e, Suc k, slept)
                 else retryLoop requestFn retryDelay attempts (Suc k) (slept @ [retryDelay * 2 ^ k]))"
  using assms by (subst retryLoop.simps) (auto split: sum.splits)

text \<open>
  The policy of the loop, on the codes it sees.  Let the first \<open>k\<close> calls of the request
  fail with errors whose code is not
  \<open>HTTP_401\<close> or \<open>HTTP_403\<close>, with \<open>k\<close> below the number of attempts.  Then call \<open>k\<close> is
  made, after a sleep of \<open>retryDelay * 2 ^ j\<close> following each failed call \<open>j\<close>.  If call
  \<open>k\<close> fails with \<open>HTTP_401\<close> or \<open>HTTP_403\<close>, that error is thrown and no further call
  or sleep follows.  If call \<open>k\<close> is the last attempt and fails, its error is thrown.
  If call \<open>k\<close> succeeds, its value is returned.
\<close>

lemma retryRequest_policy:
  assumes "k < attempts"
    and "\<forall>j<k. \<exists>e. requestFn j = Inl e \<and> \<not> isAuthError e"
  shows "(\<forall>e. requestFn k = Inl e \<and> isAuthError e \<longrightarrow>
            retryRequest requestFn retryDelay attempts
              = (Inl e, Suc k, map (\<lambda>j. retryDelay * 2 ^ j) [0..<k]))
       \<and> (\<forall>e. requestFn k = Inl e \<and> Suc k = attempts \<longrightarrow>
            retryRequest requestFn retryDelay attempts
              = (Inl e, attempts, map (\<lambda>j. retryDelay * 2 ^ j) [0..<k]))
       \<and> (\<forall>v. requestFn k = Inr v \<longrightarrow>
            retryRequest requestFn retryDelay attempts
              = (Inr (Some v), Suc k, map (\<lambda>j. retryDelay * 2 ^ j) [0..<k]))"
proof -
  have run: "retryRequest requestFn retryDelay attempts =
      retryLoop requestFn retryDelay attempts k (map (\<lambda>j. retryDelay * 2 ^ j) [0..<k])"
    unfolding retryRequest_def
    using retryLoop_skip[OF assms(1), of 0 requestFn retryDelay "[]"] assms(2) by simp
  show ?thesis
    unfolding run by (subst (1 2 3) retryLoop_stop[OF assms(1)]) auto
qed

lemma retryRequest_policy_examples:
  "retryRequest (\<lambda>i. if i = 0 then Inl NETWORK_ERROR else Inl (HTTP 403) :: remote_error + nat) 1000 3
     = (Inl (HTTP 403), 2, [1000])
   \<and> retryRequest (\<lambda>i. Inl (HTTP 500) :: remote_error + nat) 1000 3
     = (Inl (HTTP 500), 3, [1000, 2000])
   \<and> retryRequest (\<lambda>i. if i < 2 then Inl (HTTP 500) else Inr (7::nat)) 1000 3
     = (Inr (Some 7), 3, [1000, 2000])"
proof -
  let ?f = "\<lambda>i::nat. if i = 0 then Inl NETWORK_ERROR else Inl (HTTP 403) :: remote_error + nat"
  let ?g = "\<lambda>i::nat. Inl (HTTP 500) :: remote_error + nat"
  let ?h = "\<lambda>i::nat. if i < 2 then Inl (HTTP 500) else Inr (7::nat) :: remote_error + nat"
  have a: "retryRequest ?f 1000 3 = (Inl (HTTP 403), 2, [1000])"
    using retryRequest_policy[of 1 3 ?f 1000] by (simp add: isAuthError_def)
  have b: "retryRequest ?g 1000 3 = (Inl (HTTP 500), 3, [1000, 2000])"
    using retryRequest_policy[of 2 3 ?g 1000] by (simp add: isAuthError_def upt_rec)
  have c: "retryRequest ?h 1000 3 = (Inr (Some 7), 3, [1000, 2000])"
    using retryRequest_policy[of 2 3 ?h 1000] by (simp add: isAuthError_def upt_rec)
  from a b c show ?thesis by simp
qed

text \<open>
  Through the client, a response 401 or 403 gets the code the loop tests for, and the
  loop stops at it.
\<close>

lemma client_auth_failure_not_retried:
  assumes "k < attempts"
    and "\<forall>j<k. \<exists>f. server j = Inl f \<and> f \<noteq> Response 401 \<and> f \<noteq> Response 403"
    and "server k = Inl (Response status)" "status = 401 \<or> status = 403"
  shows "retryRequest (clientRequest server) retryDelay attempts
           = (Inl (HTTP status), Suc k, map (\<lambda>j. retryDelay * 2 ^ j) [0..<k])"
proof -
  have before: "\<forall>j<k. \<exists>e. clientRequest server j = Inl e \<and> \<not> isAuthError e"
  proof (intro allI impI)
    fix j assume "j < k"
    with assms(2) obtain f where "server j = Inl f" "f \<noteq> Response 401" "f \<noteq> Response 403"
      by blast
    then show "\<exists>e. clientRequest server j = Inl e \<and> \<not> isAuthError e"
      by (cases f) (auto simp: clientRequest_def responseInterceptor_def isAuthError_def)
  qed
  have "clientRequest server k = Inl (HTTP status)" "isAuthError (HTTP status)"
    using assms(3,4) by (auto simp: clientRequest_def responseInterceptor_def isAuthError_def)
  with retryRequest_policy[OF assms(1) before, of retryDelay] show ?thesis by blast
qed

text \<open>
  In a download no failure has that code: when every call fails, every attempt is made,
  with the sleeps between them, whatever the status of the responses.
\<close>

lemma download_failures_all_retried:
  assumes "0 < attempts" and "\<forall>j<attempts. server j = Inl (f j)"
  shows "retryRequest (downloadSvgRequest server) retryDelay attempts
           = (Inl (AXIOS_ERROR (f (attempts - 1))), attempts,
              map (\<lambda>j. retryDelay * 2 ^ j) [0..<attempts - 1])"
proof -
  have k: "attempts - 1 < attempts" using assms(1) by simp
  have before: "\<forall>j<attempts - 1. \<exists>e. downloadSvgRequest server j = Inl e \<and> \<not> isAuthError e"
    using assms(2) by (auto simp: downloadSvgRequest_def isAuthError_def)
  have last: "downloadSvgRequest server (attempts - 1) = Inl (AXIOS_ERROR (f (attempts - 1)))"
    using assms by (simp add: downloadSvgRequest_def)
  have "Suc (attempts - 1) = attempts" using assms(1) by simp
  with retryRequest_policy[OF k before, of retryDelay] last show ?thesis by auto
qed

text \<open>
  Claim C8, on the code.  With the settings of the sync (three attempts, base delay
  1000), a download that the server answers with 403 every time is attempted three
  times, with sleeps of 1000 and 2000 in between, before its error is thrown: the
  error of the bare \<open>axios.get\<close> does not have the code \<open>HTTP_403\<close>.  The same answers
  to a request made through the client stop the loop at the first call.
\<close>

theorem download_auth_failure_is_retried:
  "retryRequest (downloadSvgRequest forbidden) 1000 3
     = (Inl (AXIOS_ERROR (Response 403)), 3, [1000, 2000])
   \<and> retryRequest (clientRequest forbidden) 1000 3 = (Inl (HTTP 403), 1, [])"
  by code_simp

section \<open>The rebuilt token registry\<close>

lemma set_objSet: "set (objSet reg k v) \<subseteq> insert (k, v) (set reg)"
  by (induction reg k v rule: objSet.induct) auto

lemma keysCanonical_objSet:
  "keysCanonical reg \<Longrightarrow> k = tbrand v @ ''-'' @ tname v \<Longrightarrow> keysCanonical (objSet reg k v)"
  using set_objSet[of reg k v] by (auto simp: keysCanonical_def)

lemma keysCanonical_addBrandTokens:
  "keysCanonical reg \<Longrightarrow> keysCanonical (addBrandTokens b icons reg)"
proof (induction icons arbitrary: reg)
  case Nil
  then show ?case by simp
next
  case (Cons ic icons)
  have "keysCanonical (objSet reg (b @ ''-'' @ iname ic) (tokenOf b ic))"
    by (rule keysCanonical_objSet) (simp_all add: tokenOf_def Cons.prems)
  then show ?case using Cons.IH by simp
qed

lemma keysCanonical_buildTokens:
  "keysCanonical reg \<Longrightarrow> keysCanonical (buildTokens figmaIcons reg)"
  by (induction figmaIcons arbitrary: reg) (auto simp: keysCanonical_addBrandTokens)

lemma origin_addBrandTokens:
  "(key, tok) \<in> set (addBrandTokens b icons reg) \<Longrightarrow>
   (key, tok) \<in> set reg \<or> (\<exists>ic \<in> set icons. tok = tokenOf b ic)"
proof (induction icons arbitrary: reg)
  case Nil
  then show ?case by simp
next
  case (Cons ic icons)
  from Cons.prems have
    "(key, tok) \<in> set (objSet reg (b @ ''-'' @ iname ic) (tokenOf b ic))
     \<or> (\<exists>ic \<in> set icons. tok = tokenOf b ic)"
    using Cons.IH by simp
  then show ?case using set_objSet[of reg "b @ ''-'' @ iname ic" "tokenOf b ic"] by auto
qed

lemma origin_buildTokens:
  "(key, tok) \<in> set (buildTokens figmaIcons reg) \<Longrightarrow>
   (key, tok) \<in> set reg \<or> fromListing figmaIcons tok"
proof (induction figmaIcons arbitrary: reg)
  case Nil
  then show ?case by simp
next
  case (Cons entry rest)
  obtain b icons where e: "entry = (b, icons)" by (cases entry)
  from Cons.prems e have "(key, tok) \<in> set (addBrandTokens b icons reg) \<or> fromListing rest tok"
    using Cons.IH by auto
  then show ?case using origin_addBrandTokens[of key tok b icons reg] e
    by (auto simp: fromListing_def)
qed

lemma validate_returns_same:
  "keysCanonical reg \<Longrightarrow> \<forall>(key, tok) \<in> set reg. tvalue tok \<noteq> [] \<and> ttype tok \<noteq> [] \<Longrightarrow>
   validateEntries reg errs = Inr errs' \<Longrightarrow> errs' = errs"
  by (induction reg arbitrary: errs)
     (auto simp: keysCanonical_def createTokenKey_def Let_def split: if_splits)

lemma validate_ok:
  "keysCanonical reg \<Longrightarrow>
   \<forall>(key, tok) \<in> set reg. tvalue tok \<noteq> [] \<and> ttype tok \<noteq> [] \<and> tbrand tok \<noteq> [] \<and> tname tok \<noteq> [] \<Longrightarrow>
   validateEntries reg errs = Inr errs"
  by (induction reg arbitrary: errs)
     (auto simp: keysCanonical_def createTokenKey_def Let_def split: if_splits)

text \<open>
  Claim C9.  For every remote listing, \<open>updateTokensFile\<close> writes the registry built
  from it, and in that registry the key of every entry is \<open>{brand}-{name}\<close> of the
  entry's own fields: \<open>createTokenKey\<close> on the fields gives the stored key back.
  Whenever \<open>validateTokenStructure\<close> returns on it, it returns no error at all, so no
  key-mismatch error; and it returns when no brand name and no icon name of the listing
  is empty (\<open>createTokenKey\<close> throws on an empty one).
\<close>

theorem registry_keys_canonical:
  "tokensFile (updateTokensFile False figmaIcons s) = Some (buildTokens figmaIcons [])
   \<and> keysCanonical (buildTokens figmaIcons [])
   \<and> (\<forall>(key, tok) \<in> set (buildTokens figmaIcons []).
        tbrand tok \<noteq> [] \<and> tname tok \<noteq> [] \<longrightarrow> createTokenKey (tbrand tok) (tname tok) = Inr key)
   \<and> (\<forall>errs. validateTokenStructure (buildTokens figmaIcons []) = Inr errs \<longrightarrow>
        errs = [] \<and> (\<forall>key expected. KeyMismatch key expected \<notin> set errs))
   \<and> ((\<forall>(brandName, icons) \<in> set figmaIcons. brandName \<noteq> [] \<and> (\<forall>ic \<in> set icons. iname ic \<noteq> []))
        \<longrightarrow> validateTokenStructure (buildTokens figmaIcons []) = Inr [])"
proof -
  let ?reg = "buildTokens figmaIcons []"
  have kc: "keysCanonical ?reg"
    by (rule keysCanonical_buildTokens) (simp add: keysCanonical_def)
  have origin: "\<forall>(key, tok) \<in> set ?reg. fromListing figmaIcons tok"
    using origin_buildTokens[of _ _ figmaIcons "[]"] by auto
  have vt: "\<forall>(key, tok) \<in> set ?reg. tvalue tok \<noteq> [] \<and> ttype tok \<noteq> []"
    using origin by (auto simp: fromListing_def tokenOf_def)
  have derive: "\<forall>(key, tok) \<in> set ?reg.
      tbrand tok \<noteq> [] \<and> tname tok \<noteq> [] \<longrightarrow> createTokenKey (tbrand tok) (tname tok) = Inr key"
    using kc by (auto simp: keysCanonical_def createTokenKey_def)
  have ret: "\<forall>errs. validateTokenStructure ?reg = Inr errs \<longrightarrow>
        errs = [] \<and> (\<forall>key expected. KeyMismatch key expected \<notin> set errs)"
  proof (intro allI impI)
    fix errs
    assume "validateTokenStructure ?reg = Inr errs"
    then have "errs = []"
      using validate_returns_same[OF kc vt, of "[]" errs] by (simp add: validateTokenStructure_def)
    then show "errs = [] \<and> (\<forall>key expected. KeyMismatch key expected \<notin> set errs)" by simp
  qed
  have ok: "(\<forall>(brandName, icons) \<in> set figmaIcons. brandName \<noteq> [] \<and> (\<forall>ic \<in> set icons. iname ic \<noteq> []))
        \<longrightarrow> validateTokenStructure ?reg = Inr []"
  proof
    assume names: "\<forall>(brandName, icons) \<in> set figmaIcons. brandName \<noteq> [] \<and> (\<forall>ic \<in> set icons. iname ic \<noteq> [])"
    have "\<forall>(key, tok) \<in> set ?reg. tvalue tok \<noteq> [] \<and> ttype tok \<noteq> [] \<and> tbrand tok \<noteq> [] \<and> tname tok \<noteq> []"
      using origin names by (fastforce simp: fromListing_def tokenOf_def)
    then show "validateTokenStructure ?reg = Inr []"
      unfolding validateTokenStructure_def by (rule validate_ok[OF kc])
  qed
  from kc derive ret ok show ?thesis by (simp add: updateTokensFile_def)
qed

theorem registry_keys_canonical_witness:
  "map fst (buildTokens remoteListing []) = [''global-hamburger'', ''global-ice-cream'']
   \<and> keysCanonical (buildTokens remoteListing [])
   \<and> validateTokenStructure (buildTokens remoteListing []) = Inr []"
proof -
  have names: "\<forall>(brandName, icons) \<in> set remoteListing. brandName \<noteq> [] \<and> (\<forall>ic \<in> set icons. iname ic \<noteq> [])"
    by (simp add: remoteListing_def)
  have keys: "map fst (buildTokens remoteListing []) = [''global-hamburger'', ''global-ice-cream'']"
    by code_simp
  from registry_keys_canonical[of remoteListing localState] names keys show ?thesis by blast
qed


section \<open>A dry run leaves the files alone\<close>

lemma sameFiles_refl: "sameFiles s s" by (simp add: sameFiles_def)

lemma sameFiles_addStatError: "sameFiles s s' \<Longrightarrow> sameFiles s (addStatError e s')"
  by (simp add: sameFiles_def addStatError_def)

lemma processIcon_dry:
  "processIcon True rem s brandName ic exportUrl currentIcons results = (thrown, s', results')
   \<Longrightarrow> s' = s"
  by (auto simp: processIcon_def processIconCatch_def Let_def
      split: option.splits sum.splits if_splits)

lemma processIcons_dry:
  "sameFiles s (fst sr) \<Longrightarrow>
   sameFiles s (fst (processIcons True rem brandName images currentIcons icons sr))"
proof (induction icons arbitrary: sr)
  case Nil
  then show ?case by simp
next
  case (Cons ic icons)
  obtain thrown s' results' where
    p: "processIcon True rem (fst sr) brandName ic (images (nodeId ic)) currentIcons (snd sr)
        = (thrown, s', results')"
    by (cases "processIcon True rem (fst sr) brandName ic (images (nodeId ic)) currentIcons (snd sr)")
  then have "s' = fst sr" by (rule processIcon_dry)
  with Cons.prems p show ?case
    by (cases thrown) (auto intro!: Cons.IH sameFiles_addStatError)
qed

lemma handleRemovedIcons_dry:
  "sameFiles s (fst sr) \<Longrightarrow>
   sameFiles s (fst (handleRemovedIcons True brandName figmaIconNames names sr))"
  by (induction names arbitrary: sr) auto

lemma syncBrand_dry:
  "sameFiles s (fst (syncBrand True rem currentState s brandName icons))"
  unfolding syncBrand_def Let_def
  by (auto intro!: handleRemovedIcons_dry processIcons_dry sameFiles_addStatError sameFiles_refl
      split: sum.splits)

lemma sameFiles_trans: "sameFiles s s' \<Longrightarrow> sameFiles s' s'' \<Longrightarrow> sameFiles s s''"
  by (simp add: sameFiles_def)

lemma downloadAndSyncIcons_dry:
  "sameFiles s (fst sr) \<Longrightarrow>
   sameFiles s (fst (downloadAndSyncIcons True rem currentState figmaIcons sr))"
proof (induction figmaIcons arbitrary: sr)
  case Nil
  then show ?case by simp
next
  case (Cons entry rest)
  obtain brandName icons where e: "entry = (brandName, icons)" by (cases entry)
  obtain s1 results where b: "syncBrand True rem currentState (fst sr) brandName icons = (s1, results)"
    by (cases "syncBrand True rem currentState (fst sr) brandName icons")
  have "sameFiles (fst sr) s1" using syncBrand_dry[of "fst sr" rem currentState brandName icons] b by simp
  with Cons.prems have "sameFiles s s1" by (rule sameFiles_trans)
  then show ?case using e b by (auto intro!: Cons.IH)
qed

text \<open>
  Claim C3.  For every store, tokens file and remote source, a sync run in dry-run mode
  ends with the asset store and the tokens file it started with, whether it returns or
  throws.
\<close>

theorem dry_run_leaves_files:
  "assets (snd (syncIcons True rem s)) = assets s
   \<and> tokensFile (snd (syncIcons True rem s)) = tokensFile s"
proof (cases "getIconsByBrand rem")
  case (Inl e)
  then show ?thesis by (simp add: syncIcons_def addStatError_def)
next
  case (Inr figmaIcons)
  let ?s0 = "s\<lparr> syncStats := (syncStats s)\<lparr>
                 totalBrands := length figmaIcons,
                 totalIcons := sum_list (map (\<lambda>entry. length (snd entry)) figmaIcons) \<rparr> \<rparr>"
  let ?cs = "buildCurrentState (assets s) (getAllBrands (assets s)) []"
  have "sameFiles s (fst (downloadAndSyncIcons True rem ?cs figmaIcons (?s0, [])))"
    by (intro downloadAndSyncIcons_dry) (simp add: sameFiles_def)
  then show ?thesis
    using Inr
    by (auto simp: syncIcons_def Let_def sameFiles_def updateTokensFile_def split: prod.splits)
qed

section \<open>The build: the font stage and empty brands\<close>

text \<open>
  Where the working directory is after the font stage: back at the directory of before
  when the stage completes (or fails before \<open>process.chdir\<close>), and at the brand's asset
  directory when \<open>webfont\<close> throws.
\<close>

lemma generateFontFiles_cwd:
  "cwd (snd (generateFontFiles cfg tls st bs brandName)) =
     (case getBrandDirectory brandName of
        Inl e \<Rightarrow> cwd bs
      | Inr dir \<Rightarrow>
          if isBrandDirectory st dir \<and> webfont tls (joinPath (assetsDir cfg) dir) \<noteq> None
          then joinPath (assetsDir cfg) dir
          else cwd bs)"
  by (auto simp: generateFontFiles_def Let_def split: sum.splits option.splits)

lemma generateFontFiles_completed:
  "fst (generateFontFiles cfg tls st bs brandName) = None \<Longrightarrow>
   cwd (snd (generateFontFiles cfg tls st bs brandName)) = cwd bs"
  by (auto simp: generateFontFiles_def Let_def split: sum.splits option.splits if_splits)

lemma buildBrand_empty:
  "getIconsForBrand st brandName = Inr [] \<Longrightarrow> buildBrand cfg tls st bs brandName = (None, bs)"
  by (simp add: buildBrand_def)

lemma buildBrands_empty:
  "\<forall>b \<in> set names. getIconsForBrand st b = Inr [] \<Longrightarrow>
   buildBrands cfg tls st names bs = (map (\<lambda>b. (b, None)) names, bs)"
  by (induction names) (simp_all add: buildBrand_empty)

text \<open>
  Claim C5, as amended.  A brand whose icon list is empty at the start of its build is
  skipped: \<open>buildBrand\<close> returns before any stage runs, its promise is fulfilled and the
  state is unchanged.  The brand counts as built and no error is recorded against it: a
  build whose selected brands all have empty icon lists returns \<open>true\<close> with
  \<open>buildStats.errors\<close> as it was.
\<close>

theorem empty_brand_is_skipped:
  assumes "brands cfg \<noteq> []" and "\<forall>b \<in> set (brands cfg). getIconsForBrand st b = Inr []"
  shows "(\<forall>b \<in> set (brands cfg). buildBrand cfg tls st bs b = (None, bs))
       \<and> build cfg tls st bs = (True, bs)"
proof -
  have one: "\<forall>b \<in> set (brands cfg). buildBrand cfg tls st bs b = (None, bs)"
    using assms(2) by (simp add: buildBrand_empty)
  have all: "buildBrands cfg tls st (brands cfg) bs = (map (\<lambda>b. (b, None)) (brands cfg), bs)"
    using assms(2) by (rule buildBrands_empty)
  have "List.map_filter (\<lambda>r. case snd r of None \<Rightarrow> None | Some e \<Rightarrow> Some (fst r, e))
          (map (\<lambda>b. (b, None :: error_code option)) names) = []" for names :: "string list"
    by (induction names) simp_all
  then have "build cfg tls st bs = (True, bs)"
    using assms(1) by (simp add: build_def getBrandsToProcess_def all Let_def)
  with one show ?thesis by simp
qed

section \<open>The scenarios, evaluated\<close>

theorem dry_run_leaves_files_witness:
  "fst (syncIcons True remoteOk localState) =
     Inr [(''global'',
           \<lparr> r_added = [(''ice-cream'', WouldAdd)], r_updated = [(''hamburger'', WouldUpdate)],
             r_removed = [], r_errors = [], r_skipped = [] \<rparr>)]
   \<and> assets (snd (syncIcons True remoteOk localState)) = localStore
   \<and> tokensFile (snd (syncIcons True remoteOk localState)) = None"
proof -
  have "fst (syncIcons True remoteOk localState) =
     Inr [(''global'',
           \<lparr> r_added = [(''ice-cream'', WouldAdd)], r_updated = [(''hamburger'', WouldUpdate)],
             r_removed = [], r_errors = [], r_skipped = [] \<rparr>)]"
    by code_simp
  with dry_run_leaves_files[of remoteOk localState] show ?thesis
    by (simp add: localState_def)
qed

text \<open>
  Claim C1, on the code.  In the scenario the run adds \<open>ice-cream\<close>; for \<open>hamburger\<close>,
  \<open>addIconToBrand\<close> throws \<open>ICON_EXISTS\<close>, the \<open>catch\<close> block removes the existing file
  and then fails with a \<open>ReferenceError\<close>, which is recorded as an error of the icon.
  Nothing is classified as updated or removed, and afterwards the listing of brand
  \<open>global\<close> holds \<open>ice-cream\<close> alone.
\<close>

theorem sync_scenario_drops_existing_icon:
  "fst (syncIcons False remoteOk localState) =
     Inr [(''global'',
           \<lparr> r_added = [(''ice-cream'', Added)], r_updated = [], r_removed = [],
             r_errors = [IconFailed ''hamburger'' ReferenceError], r_skipped = [] \<rparr>)]
   \<and> getIconsForBrand (assets (snd (syncIcons False remoteOk localState))) ''global'' =
     Inr [\<lparr> name = ''ice-cream'', filename = ''ice-cream.svg'', path = ''global/ice-cream.svg'',
            format = ''svg'', fsize = 26 \<rparr>]"
  by code_simp

text \<open>
  Claim C2, on the code.  When \<open>webfont\<close> throws, \<open>generateFontFiles\<close> rethrows with the
  working directory still at the brand's asset directory, not at the directory that
  was current before the stage.
\<close>

theorem font_stage_failure_keeps_cwd:
  "generateFontFiles fontBuild failingFont localStore initialBuild ''global''
     = (Some TOOL_ERROR, initialBuild\<lparr> cwd := ''/repo/assets/global'' \<rparr>)
   \<and> cwd (snd (generateFontFiles fontBuild failingFont localStore initialBuild ''global''))
     \<noteq> cwd initialBuild"
  by code_simp

text \<open>
  The brand \<open>empty\<close> has an empty icon list; its build is not reported as failed:
  \<open>build\<close> returns \<open>true\<close> and records no error.
\<close>

theorem empty_brand_is_skipped_witness:
  "buildBrand emptyBrandBuild workingTools storeWithEmptyBrand initialBuild ''empty''
     = (None, initialBuild)
   \<and> build emptyBrandBuild workingTools storeWithEmptyBrand initialBuild = (True, initialBuild)"
proof -
  have b: "brands emptyBrandBuild = [''empty'']" by (simp add: emptyBrandBuild_def)
  have e: "getIconsForBrand storeWithEmptyBrand ''empty'' = Inr []" by code_simp
  from empty_brand_is_skipped[of emptyBrandBuild storeWithEmptyBrand workingTools initialBuild]
  show ?thesis by (simp add: b e)
qed

theorem empty_brand_not_failed_counterexample:
  "getIconsForBrand storeWithEmptyBrand ''empty'' = Inr []
   \<and> fst (build emptyBrandBuild workingTools storeWithEmptyBrand initialBuild) = True
   \<and> buildErrors (snd (build emptyBrandBuild workingTools storeWithEmptyBrand initialBuild)) = []"
  by code_simp

end
